theory Spec2Isabelle
  imports Complex_Main
begin

section \<open>Numbers\<close>

text \<open>
  JavaScript numbers and GLSL floats are modelled as the real numbers: every decimal
  constant of the source (\<open>0.96\<close>, \<open>1.7\<close>, ...) is the rational it denotes, and
  rounding is left out. Equalities proved below are equalities of the exact values.
\<close>

section \<open>Gesture classifier (GestureManager.onResults)\<close>

text \<open>
  Modelled from the spec: \<open>types.ts\<close> is not among the source files. The enum
  \<open>TreeMorphState\<close> has the two members the code names, \<open>TREE_SHAPE\<close> (the
  spec's axis shape) and \<open>SCATTERED\<close>.
\<close>

datatype TreeMorphState = TREE_SHAPE | SCATTERED

text \<open>A landmark of the hand model; only its \<open>x\<close> and \<open>y\<close> are read.\<close>

record landmark =
  lm_x :: real
  lm_y :: real

type_synonym hand = "landmark list"

datatype js_error = TypeError

text \<open>
  \<open>landmarks[i]\<close> beyond the array is \<open>undefined\<close> in JavaScript, and every
  landmark the handler reads is dereferenced at once (\<open>.x\<close>), which throws a
  TypeError. The read and the dereference are one step here.
\<close>

definition landmark_at :: "hand \<Rightarrow> nat \<Rightarrow> js_error + landmark" where
  "landmark_at landmarks i =
     (if i < length landmarks then Inr (landmarks ! i) else Inl TypeError)"

definition getDistance :: "landmark \<Rightarrow> landmark \<Rightarrow> real" where
  "getDistance p1 p2 = sqrt ((lm_x p1 - lm_x p2)\<^sup>2 + (lm_y p1 - lm_y p2)\<^sup>2)"

text \<open>The \<open>tips.forEach\<close> loop, with the running \<open>extendedFingers\<close> counter.\<close>

fun countTips :: "hand \<Rightarrow> landmark \<Rightarrow> real \<Rightarrow> nat list \<Rightarrow> nat \<Rightarrow> js_error + nat" where
  "countTips landmarks wrist referenceDist [] extended = Inr extended"
| "countTips landmarks wrist referenceDist (tipIdx # tips) extended =
     (case landmark_at landmarks tipIdx of
        Inl e \<Rightarrow> Inl e
      | Inr tip \<Rightarrow>
          countTips landmarks wrist referenceDist tips
            (if getDistance tip wrist > referenceDist * 1.7
             then extended + 1 else extended))"

definition extendedFingers :: "hand \<Rightarrow> js_error + nat" where
  "extendedFingers landmarks =
     (case landmark_at landmarks 0 of
        Inl e \<Rightarrow> Inl e
      | Inr wrist \<Rightarrow>
     (case landmark_at landmarks 9 of
        Inl e \<Rightarrow> Inl e
      | Inr palmCenter \<Rightarrow>
     (case countTips landmarks wrist (getDistance wrist palmCenter) [8, 12, 16, 20] 0 of
        Inl e \<Rightarrow> Inl e
      | Inr n \<Rightarrow>
     (case landmark_at landmarks 4 of
        Inl e \<Rightarrow> Inl e
      | Inr thumbTip \<Rightarrow>
          Inr (if getDistance thumbTip wrist > getDistance wrist palmCenter * 1.3
               then n + 1 else n)))))"

text \<open>The two refs the handler writes: \<open>isHandActiveRef\<close> and \<open>handXRef\<close>.\<close>

record gesture_refs =
  isHandActive :: bool
  handX :: real

text \<open>
  \<open>onResults\<close>: the argument is \<open>results.multiHandLandmarks\<close> (\<open>None\<close> when the
  field is missing). The result is the refs as written and either the error thrown or
  the state \<open>onStateChange\<close> was called with.
\<close>

definition onResults ::
  "hand list option \<Rightarrow> gesture_refs \<Rightarrow> gesture_refs \<times> (js_error + TreeMorphState option)" where
  "onResults multiHandLandmarks refs =
     (case multiHandLandmarks of
        Some (landmarks # others) \<Rightarrow>
          (let refs1 = refs\<lparr>isHandActive := True\<rparr> in
           case landmark_at landmarks 0 of
             Inl e \<Rightarrow> (refs1, Inl e)
           | Inr l0 \<Rightarrow>
               (let refs2 = refs1\<lparr>handX := lm_x l0\<rparr> in
                case extendedFingers landmarks of
                  Inl e \<Rightarrow> (refs2, Inl e)
                | Inr extended \<Rightarrow>
                    (refs2,
                     Inr (if extended \<ge> 3 then Some SCATTERED
                          else if extended \<le> 1 then Some TREE_SHAPE
                          else None))))
      | _ \<Rightarrow> (refs\<lparr>isHandActive := False\<rparr>, Inr None))"

text \<open>
  \<open>App.handleGestureStateChange\<close> is the \<open>onStateChange\<close> the classifier is given:
  \<open>setTreeState(newState)\<close>.
\<close>

definition handleGestureStateChange :: "TreeMorphState \<Rightarrow> TreeMorphState \<Rightarrow> TreeMorphState" where
  "handleGestureStateChange newState treeState = newState"

text \<open>
  One camera frame: \<open>onResults\<close> runs on the refs, and the stored \<open>treeState\<close>
  changes only through a call of \<open>onStateChange\<close>. An error thrown by the handler is
  swallowed by the \<open>try\<close>/\<open>catch\<close> around \<open>send\<close>.
\<close>

definition gestureFrame ::
  "hand list option \<Rightarrow> gesture_refs \<times> TreeMorphState \<Rightarrow> gesture_refs \<times> TreeMorphState" where
  "gestureFrame multiHandLandmarks st =
     (case onResults multiHandLandmarks (fst st) of
        (refs', Inr (Some newState)) \<Rightarrow> (refs', handleGestureStateChange newState (snd st))
      | (refs', _) \<Rightarrow> (refs', snd st))"

section \<open>Library functions\<close>

text \<open>
  three.js and the GLSL built-ins are libraries, not files of the repository; each
  function the code calls is written out by its library definition.
  \<open>THREE.MathUtils.lerp(x, y, t)\<close> is \<open>(1 - t) * x + t * y\<close>, and
  \<open>THREE.MathUtils.smoothstep(x, min, max)\<close> returns 0 below \<open>min\<close>, 1 above
  \<open>max\<close> and the cubic in between.
\<close>

definition MathUtils_lerp :: "real \<Rightarrow> real \<Rightarrow> real \<Rightarrow> real" where
  "MathUtils_lerp x y t = (1 - t) * x + t * y"

definition MathUtils_smoothstep :: "real \<Rightarrow> real \<Rightarrow> real \<Rightarrow> real" where
  "MathUtils_smoothstep x mn mx =
     (if x \<le> mn then 0
      else if x \<ge> mx then 1
      else (let x' = (x - mn) / (mx - mn) in x' * x' * (3 - 2 * x')))"

datatype vec3 = Vec3 (vx: real) (vy: real) (vz: real)

definition vec3_add :: "vec3 \<Rightarrow> vec3 \<Rightarrow> vec3" where
  "vec3_add a b = Vec3 (vx a + vx b) (vy a + vy b) (vz a + vz b)"

definition vec3_sub :: "vec3 \<Rightarrow> vec3 \<Rightarrow> vec3" where
  "vec3_sub a b = Vec3 (vx a - vx b) (vy a - vy b) (vz a - vz b)"

definition vec3_scale :: "vec3 \<Rightarrow> real \<Rightarrow> vec3" where
  "vec3_scale a k = Vec3 (vx a * k) (vy a * k) (vz a * k)"

definition vec3_length :: "vec3 \<Rightarrow> real" where
  "vec3_length a = sqrt (vx a * vx a + vy a * vy a + vz a * vz a)"

text \<open>\<open>Vector3.lerp(v, alpha)\<close>: \<open>this.x += (v.x - this.x) * alpha\<close>, and so for y and z.\<close>

definition Vector3_lerp :: "vec3 \<Rightarrow> vec3 \<Rightarrow> real \<Rightarrow> vec3" where
  "Vector3_lerp this v alpha =
     Vec3 (vx this + (vx v - vx this) * alpha)
          (vy this + (vy v - vy this) * alpha)
          (vz this + (vz v - vz this) * alpha)"

text \<open>
  GLSL: \<open>clamp(x, lo, hi) = min(max(x, lo), hi)\<close>; \<open>smoothstep(edge0, edge1, x)\<close>
  is the cubic of \<open>clamp((x - edge0) / (edge1 - edge0), 0, 1)\<close> (the formula the
  language specification gives, used here also where the shader passes
  \<open>edge0 > edge1\<close>); \<open>mix(x, y, a) = x * (1 - a) + y * a\<close>. \<open>normalize\<close> of the
  zero vector divides by zero and is undefined: \<open>None\<close>.
\<close>

definition clamp :: "real \<Rightarrow> real \<Rightarrow> real \<Rightarrow> real" where
  "clamp x lo hi = min (max x lo) hi"

definition smoothstep :: "real \<Rightarrow> real \<Rightarrow> real \<Rightarrow> real" where
  "smoothstep edge0 edge1 x =
     (let t = clamp ((x - edge0) / (edge1 - edge0)) 0 1 in t * t * (3 - 2 * t))"

definition mix :: "real \<Rightarrow> real \<Rightarrow> real \<Rightarrow> real" where
  "mix x y a = x * (1 - a) + y * a"

definition mix3 :: "vec3 \<Rightarrow> vec3 \<Rightarrow> real \<Rightarrow> vec3" where
  "mix3 x y a = Vec3 (mix (vx x) (vx y) a) (mix (vy x) (vy y) a) (mix (vz x) (vz y) a)"

definition glsl_normalize :: "vec3 \<Rightarrow> vec3 option" where
  "glsl_normalize v =
     (if vec3_length v = 0 then None else Some (vec3_scale v (1 / vec3_length v)))"

definition glsl_distance :: "vec3 \<Rightarrow> vec3 \<Rightarrow> real" where
  "glsl_distance a b = vec3_length (vec3_sub a b)"

section \<open>Scene: morph progress and rotation (Scene.useFrame)\<close>

text \<open>
  The refs of the component. \<open>groupRef\<close> holds \<open>groupRef.current.rotation.y\<close>, or
  \<open>None\<close> while the group is not mounted.
\<close>

record scene_refs =
  progressRef :: real
  groupRef :: "real option"
  angularVelocity :: real
  lastMouseX :: real
  isDraggingScene :: bool
  lastHandX :: real

text \<open>What a frame reads from the props and from the two refs shared with the gesture manager.\<close>

record scene_props =
  treeState :: TreeMorphState
  isDraggingPhoto :: bool
  handXRef :: real
  isHandActiveRef :: bool

definition scene_init :: scene_refs where
  "scene_init =
     \<lparr>progressRef = 0, groupRef = None, angularVelocity = 0.15, lastMouseX = 0,
      isDraggingScene = False, lastHandX = 0.5\<rparr>"

definition targetProgress :: "scene_props \<Rightarrow> real" where
  "targetProgress props = (if treeState props = TREE_SHAPE then 1 else 0)"

definition Scene_useFrame :: "real \<Rightarrow> scene_props \<Rightarrow> scene_refs \<Rightarrow> scene_refs" where
  "Scene_useFrame delta props refs =
     (let r0 = refs\<lparr>progressRef :=
                 MathUtils_lerp (progressRef refs) (targetProgress props) (min (delta * 3.5) 1.0)\<rparr>
      in case groupRef r0 of
           None \<Rightarrow> r0
         | Some rotation_y \<Rightarrow>
             if isDraggingPhoto props then r0\<lparr>angularVelocity := 0\<rparr>
             else
               (let friction = 0.96;
                    r1 = (if \<not> isDraggingScene r0 \<and> isHandActiveRef props
                          then (let currentHandX = handXRef props;
                                    handDelta = currentHandX - lastHandX r0
                                in r0\<lparr>angularVelocity := angularVelocity r0 + handDelta * 18.0,
                                      lastHandX := currentHandX\<rparr>)
                          else r0);
                    r2 = r1\<lparr>angularVelocity := angularVelocity r1 * friction\<rparr>;
                    idleSpeed = 0.06;
                    r3 = (if \<not> isDraggingScene r2 \<and> \<not> isHandActiveRef props
                             \<and> \<bar>angularVelocity r2\<bar> < idleSpeed
                          then r2\<lparr>angularVelocity :=
                                    MathUtils_lerp (angularVelocity r2) idleSpeed 0.05\<rparr>
                          else r2)
                in r3\<lparr>groupRef := Some (rotation_y + angularVelocity r3 * delta)\<rparr>))"

text \<open>The render loop: one call of the frame callback per frame, each with its own \<open>delta\<close>.\<close>

fun Scene_frames :: "real list \<Rightarrow> scene_props \<Rightarrow> scene_refs \<Rightarrow> scene_refs" where
  "Scene_frames [] props refs = refs"
| "Scene_frames (delta # deltas) props refs =
     Scene_frames deltas props (Scene_useFrame delta props refs)"

section \<open>Foliage particle field (foliageVertexShader)\<close>

record particle =
  aScatterPos :: vec3
  aTreePos :: vec3
  aPhase :: real
  aSize :: real
  aColorIndex :: real

text \<open>
  The position the vertex shader's \<open>main\<close> hands to the model-view matrix
  (\<open>currentPos\<close> after the breathing step), \<open>None\<close> where a \<open>normalize\<close> is undefined.
\<close>

definition foliage_currentPos :: "real \<Rightarrow> real \<Rightarrow> particle \<Rightarrow> vec3 option" where
  "foliage_currentPos uTime uProgress p =
     (let t = smoothstep 0.0 1.0 uProgress;
          inverseT = 1.0 - t;
          currentPos = mix3 (aScatterPos p) (aTreePos p) t;
          explosion = smoothstep 0.8 0.0 t * smoothstep 0.0 0.5 t * 1200.0
      in case glsl_normalize (aScatterPos p) of
           None \<Rightarrow> None
         | Some dir \<Rightarrow>
             (let currentPos1 = vec3_add currentPos (vec3_scale dir explosion);
                  chaos = inverseT * 250.0;
                  currentPos2 =
                    Vec3 (vx currentPos1 + sin (uTime * 0.5 + aPhase p * 2.0) * chaos)
                         (vy currentPos1 + cos (uTime * 0.4 + aPhase p * 3.1) * chaos)
                         (vz currentPos1 + sin (uTime * 0.6 + aPhase p * 1.5) * chaos);
                  breathe = sin (uTime * 1.5 + aPhase p) * 15.0 * (1.1 - t)
              in case glsl_normalize currentPos2 of
                   None \<Rightarrow> None
                 | Some radial \<Rightarrow>
                     Some (vec3_add currentPos2 (vec3_scale (vec3_scale radial breathe) 0.2))))"

text \<open>\<open>vAlpha\<close> as \<open>main\<close> writes it; it reads neither the particle nor the time.\<close>

definition foliage_vAlpha :: "real \<Rightarrow> real" where
  "foliage_vAlpha uProgress =
     (let t = smoothstep 0.0 1.0 uProgress;
          inverseT = 1.0 - t
      in (0.75 + 0.25 * inverseT) * smoothstep 0.0 0.1 (uProgress * 0.5 + 0.5))"

text \<open>
  The uniform \<open>uProgress\<close> starts at 0 and \<open>Foliage.useFrame\<close> eases it toward the
  \<open>progress\<close> prop by a tenth per frame.
\<close>

definition uProgress_init :: real where
  "uProgress_init = 0"

definition Foliage_useFrame :: "real \<Rightarrow> real \<Rightarrow> real" where
  "Foliage_useFrame progress uProgress = MathUtils_lerp uProgress progress 0.1"

section \<open>Photo ornaments (PhotoItem, PhotoOrnaments)\<close>

text \<open>
  Modelled from the spec: \<open>types.ts\<close> is not among the source files. \<open>DualPosition\<close>
  has the fields of the object literal \<open>PhotoOrnaments\<close> builds; \<open>tree\<close> and
  \<open>scatter\<close> are three-element arrays.
\<close>

record DualPosition =
  tree :: vec3
  scatter :: vec3
  rotationSpeed :: real
  phaseOffset :: real
  scale :: real

text \<open>An element of \<open>photoData\<close>: \<open>{url, data}\<close>.\<close>

record photo_entry =
  url :: string
  data :: DualPosition

text \<open>
  The mesh behind \<open>meshRef\<close>: its position, its uniform scale, its material's
  opacity and whether it has a parent.
\<close>

record mesh =
  position :: vec3
  mesh_scale :: real
  opacity :: real
  has_parent :: bool

text \<open>
  A \<open>PhotoItem\<close>: the entry it renders (the \<open>data\<close> object is shared with
  \<open>photoData\<close>, so a write to \<open>data.tree\<close> is a write to the entry), its state and
  memoised vectors, and the calls it has made to its callbacks, oldest first:
  \<open>clicked\<close> for \<open>onClick\<close>, \<open>dragStates\<close> for \<open>onDragStart\<close> (\<open>True\<close>) and
  \<open>onDragEnd\<close> (\<open>False\<close>).
\<close>

record photo_item =
  item :: photo_entry
  meshRef :: "mesh option"
  hovered :: bool
  isDragging :: bool
  intersection :: vec3
  dragOffset :: vec3
  dragStartPoint :: "real \<times> real"
  cursor :: string
  clicked :: "string list"
  dragStates :: "bool list"

text \<open>
  \<open>handlePointerDown\<close>. \<open>worldPos\<close> is what \<open>getWorldPosition\<close> returns and
  \<open>hit\<close> what \<open>raycaster.ray.intersectPlane(dragPlane, intersection)\<close> returns
  (\<open>None\<close> for \<open>null\<close>, which leaves \<open>intersection\<close> as it was).
\<close>

definition handlePointerDown ::
  "vec3 \<Rightarrow> vec3 option \<Rightarrow> real \<times> real \<Rightarrow> photo_item \<Rightarrow> photo_item" where
  "handlePointerDown worldPos hit client s =
     (case meshRef s of
        None \<Rightarrow> s
      | Some m \<Rightarrow>
          (let s1 = (case hit of
                       Some p \<Rightarrow> s\<lparr>intersection := p, dragOffset := vec3_sub worldPos p\<rparr>
                     | None \<Rightarrow> s)
           in s1\<lparr>dragStartPoint := client, isDragging := True,
                 dragStates := dragStates s1 @ [True], cursor := ''grabbing''\<rparr>))"

text \<open>
  \<open>handlePointerMove\<close>. \<open>worldToLocal\<close> is the parent's world-to-local transform at
  the time of the event.
\<close>

definition handlePointerMove :: "(vec3 \<Rightarrow> vec3) \<Rightarrow> vec3 option \<Rightarrow> photo_item \<Rightarrow> photo_item" where
  "handlePointerMove worldToLocal hit s =
     (if \<not> isDragging s then s
      else case meshRef s of
             None \<Rightarrow> s
           | Some m \<Rightarrow>
               if \<not> has_parent m then s
               else (case hit of
                       Some p \<Rightarrow>
                         (let worldTarget = vec3_add p (dragOffset s);
                              localTarget = worldToLocal worldTarget
                          in s\<lparr>intersection := p,
                               item := (item s)\<lparr>data := (data (item s))\<lparr>tree := localTarget\<rparr>\<rparr>\<rparr>)
                     | None \<Rightarrow> s))"

definition handlePointerUp :: "photo_item \<Rightarrow> photo_item" where
  "handlePointerUp s =
     (if \<not> isDragging s then s
      else s\<lparr>isDragging := False, dragStates := dragStates s @ [False],
             cursor := (if hovered s then ''zoom-in'' else ''auto'')\<rparr>)"

definition handleDoubleClick :: "photo_item \<Rightarrow> photo_item" where
  "handleDoubleClick s = s\<lparr>clicked := clicked s @ [url (item s)]\<rparr>"

text \<open>\<open>targetPos\<close> as the frame callback sets it, at clock time \<open>t\<close>.\<close>

definition PhotoItem_targetPos :: "real \<Rightarrow> real \<Rightarrow> photo_item \<Rightarrow> vec3" where
  "PhotoItem_targetPos t progress s =
     (let easeProgress = MathUtils_smoothstep progress 0 1;
          inverseEase = 1.0 - easeProgress;
          d = data (item s);
          chaosX = sin (t * 0.4 + phaseOffset d) * 150.0 * inverseEase;
          chaosY = cos (t * 0.3 + phaseOffset d) * 150.0 * inverseEase;
          chaosZ = sin (t * 0.5 + phaseOffset d * 2.0) * 150.0 * inverseEase;
          baseTargetX = MathUtils_lerp (vx (scatter d)) (vx (tree d)) easeProgress + chaosX;
          baseTargetY = MathUtils_lerp (vy (scatter d)) (vy (tree d)) easeProgress + chaosY;
          baseTargetZ = MathUtils_lerp (vz (scatter d)) (vz (tree d)) easeProgress + chaosZ;
          floatFactor = (if isDragging s then 0 else 1.0);
          floatAmp = (15.0 + (inverseEase * 60.0)) * floatFactor;
          floatY = sin (t * 0.8 + phaseOffset d) * floatAmp;
          floatX = cos (t * 0.5 + phaseOffset d) * floatAmp * 0.5
      in Vec3 (baseTargetX + floatX) (baseTargetY + floatY) baseTargetZ)"

definition PhotoItem_useFrame :: "real \<Rightarrow> real \<Rightarrow> real \<Rightarrow> photo_item \<Rightarrow> photo_item" where
  "PhotoItem_useFrame t progress globalScale s =
     (case meshRef s of
        None \<Rightarrow> s
      | Some m \<Rightarrow>
          (let easeProgress = MathUtils_smoothstep progress 0 1;
               d = data (item s);
               targetPos = PhotoItem_targetPos t progress s;
               lerpRate = (if isDragging s then 0.3 else 0.08);
               pulse = 1.0 + sin (t * 1.5 + phaseOffset d) * 0.04 * easeProgress;
               scatterShrink = 0.8 + (0.2 * easeProgress);
               feedbackScale = (if hovered s \<or> isDragging s then 1.4 else 1.0);
               targetScaleValue = scale d * pulse * globalScale * feedbackScale * scatterShrink;
               nextScale = MathUtils_lerp (mesh_scale m) targetScaleValue 0.15;
               targetOpacity = (if isDragging s then 1.0 else 0.7) + (0.3 * easeProgress)
           in s\<lparr>meshRef := Some (m\<lparr>position := Vector3_lerp (position m) targetPos lerpRate,
                                     mesh_scale := nextScale,
                                     opacity := MathUtils_lerp (opacity m) targetOpacity 0.1\<rparr>)\<rparr>))"

text \<open>
  What reaches a \<open>PhotoItem\<close> between pointer down and pointer up: pointer moves,
  each with the parent's transform and the ray hit of that event, and frames of the
  render loop, each with its clock time, \<open>progress\<close> and \<open>globalScale\<close>.
\<close>

datatype drag_event =
  PointerMove "vec3 \<Rightarrow> vec3" "vec3 option"
| Frame real real real

fun dragEvent :: "drag_event \<Rightarrow> photo_item \<Rightarrow> photo_item" where
  "dragEvent (PointerMove worldToLocal hit) s = handlePointerMove worldToLocal hit s"
| "dragEvent (Frame t progress globalScale) s = PhotoItem_useFrame t progress globalScale s"

fun dragEvents :: "drag_event list \<Rightarrow> photo_item \<Rightarrow> photo_item" where
  "dragEvents [] s = s"
| "dragEvents (ev # evs) s = dragEvents evs (dragEvent ev s)"

text \<open>A pointer move whose ray hits the drag plane.\<close>

fun hits :: "drag_event \<Rightarrow> bool" where
  "hits (PointerMove worldToLocal (Some p)) = True"
| "hits ev = False"

text \<open>
  Modelled from the spec: \<open>utils/math.ts\<close> is not among the source files.
  \<open>getOffAxisPosition\<close> and \<open>getSpherePosition\<close> return randomised points, and
  \<open>Math.random\<close> a random number; what the three calls return for the \<open>i\<close>-th new
  image is the \<open>i\<close>-th draw.
\<close>

record draw =
  treePosRaw :: vec3
  scatterPosRaw :: vec3
  random :: real

fun newItems :: "(nat \<Rightarrow> draw) \<Rightarrow> nat \<Rightarrow> string list \<Rightarrow> photo_entry list" where
  "newItems draws i [] = []"
| "newItems draws i (u # newImages) =
     \<lparr>url = u,
      data = \<lparr>tree = treePosRaw (draws i), scatter = scatterPosRaw (draws i),
              rotationSpeed = 0, phaseOffset = random (draws i) * pi * 2, scale = 110\<rparr>\<rparr>
     # newItems draws (Suc i) newImages"

text \<open>The updater \<open>PhotoOrnaments\<close> passes to \<open>setPhotoData\<close> when \<open>images\<close> changes.\<close>

definition setPhotoData :: "(nat \<Rightarrow> draw) \<Rightarrow> string list \<Rightarrow> photo_entry list \<Rightarrow> photo_entry list" where
  "setPhotoData draws images prev =
     (let existingUrls = map url prev;
          newImages = filter (\<lambda>u. u \<notin> set existingUrls) images;
          filteredPrev = filter (\<lambda>p. url p \<in> set images) prev
      in filteredPrev @ newItems draws 0 newImages)"

section \<open>Ambient dust field (GoldDust)\<close>

text \<open>
  The uniforms, the smoothed pointer position and whether \<open>meshRef.current\<close> is set.
\<close>

record dust_state =
  dust_mounted :: bool
  uTime :: real
  uMouse :: vec3
  uHover :: real
  mousePos3D :: vec3

definition dust_init :: dust_state where
  "dust_init =
     \<lparr>dust_mounted = False, uTime = 0, uMouse = Vec3 0 0 0, uHover = 0,
      mousePos3D = Vec3 0 0 0\<rparr>"

text \<open>A \<open>Vector3\<close> is an object, and an object is truthy whatever it holds.\<close>

definition truthy :: "vec3 \<Rightarrow> bool" where
  "truthy v = True"

text \<open>
  \<open>GoldDust.useFrame\<close>. \<open>hit\<close> is what \<open>intersectPlane(mousePlane, target)\<close>
  returns; the call writes the point into \<open>target\<close> when there is one and leaves the
  fresh \<open>Vector3()\<close> (the origin) otherwise. The return value is dropped.
\<close>

definition GoldDust_useFrame :: "real \<Rightarrow> vec3 option \<Rightarrow> dust_state \<Rightarrow> dust_state" where
  "GoldDust_useFrame elapsedTime hit s =
     (if \<not> dust_mounted s then s
      else
        (let s1 = s\<lparr>uTime := elapsedTime\<rparr>;
             target = (case hit of Some p \<Rightarrow> p | None \<Rightarrow> Vec3 0 0 0)
         in if truthy target
            then (let m = Vector3_lerp (mousePos3D s1) target 0.1
                  in s1\<lparr>mousePos3D := m, uMouse := m, uHover := 1.0\<rparr>)
            else s1))"

fun GoldDust_frames :: "(real \<times> vec3 option) list \<Rightarrow> dust_state \<Rightarrow> dust_state" where
  "GoldDust_frames [] s = s"
| "GoldDust_frames (f # frames) s = GoldDust_frames frames (GoldDust_useFrame (fst f) (snd f) s)"

text \<open>
  The oscillated position of a dust particle before the attraction, and the position
  the dust vertex shader hands to the model-view matrix.
\<close>

definition dust_oscillated :: "real \<Rightarrow> vec3 \<Rightarrow> real \<Rightarrow> vec3" where
  "dust_oscillated uTime0 position0 aPhase0 =
     (let t = uTime0 * 0.4
      in Vec3 (vx position0 + cos (t * 0.5 + aPhase0) * 20.0)
              (vy position0 + sin (t + aPhase0) * 40.0)
              (vz position0))"

definition dust_pos :: "real \<Rightarrow> vec3 \<Rightarrow> real \<Rightarrow> vec3 \<Rightarrow> real \<Rightarrow> vec3 option" where
  "dust_pos uTime0 uMouse0 uHover0 position0 aPhase0 =
     (let pos = dust_oscillated uTime0 position0 aPhase0;
          d = glsl_distance pos uMouse0;
          attractRadius = 1200.0
      in if d < attractRadius \<and> uHover0 > 0.5
         then (case glsl_normalize (vec3_sub uMouse0 pos) of
                 None \<Rightarrow> None
               | Some dir \<Rightarrow>
                   (let strength = 1.0 - d / attractRadius;
                        strength2 = strength\<^sup>2
                    in Some (vec3_add pos (vec3_scale (vec3_scale dir strength2) 300.0))))
         else Some pos)"

section \<open>The gesture classifier emits by finger count\<close>

lemma countTips_total:
  "\<forall>i\<in>set tips. i < length lm \<Longrightarrow>
   \<exists>m. countTips lm w r tips n = Inr m \<and> n \<le> m \<and> m \<le> n + length tips"
proof (induction tips arbitrary: n)
  case Nil
  then show ?case by simp
next
  case (Cons i tips)
  let ?n' = "if getDistance (lm ! i) w > r * 1.7 then n + 1 else n"
  from Cons.prems have "\<forall>i\<in>set tips. i < length lm" by simp
  from Cons.IH[OF this, of ?n'] obtain m where
    m: "countTips lm w r tips ?n' = Inr m" "?n' \<le> m" "m \<le> ?n' + length tips"
    by blast
  from Cons.prems have "i < length lm" by simp
  then have "countTips lm w r (i # tips) n = Inr m"
    using m(1) by (simp add: landmark_at_def)
  moreover have "n \<le> m" using m(2) by (simp split: if_splits)
  moreover have "m \<le> n + length (i # tips)" using m(3) by (simp split: if_splits)
  ultimately show ?case by blast
qed

lemma extendedFingers_total:
  assumes "length lm = 21"
  shows "\<exists>n\<le>5. extendedFingers lm = Inr n"
proof -
  have "\<forall>i\<in>set [8, 12, 16, 20]. i < length lm" using assms by simp
  from countTips_total[OF this, of "lm ! 0" "getDistance (lm ! 0) (lm ! 9)" 0]
  obtain m where "countTips lm (lm ! 0) (getDistance (lm ! 0) (lm ! 9)) [8, 12, 16, 20] 0 = Inr m"
    and "m \<le> 4"
    by auto
  then show ?thesis using assms
    by (auto simp: extendedFingers_def landmark_at_def)
qed

text \<open>
  C1. With a detected hand of 21 landmarks the handler computes a finger count
  \<open>n \<le> 5\<close>, marks the hand active and publishes its x position; for \<open>n \<ge> 3\<close> it
  emits \<open>SCATTERED\<close>, for \<open>n \<le> 1\<close> it emits \<open>TREE_SHAPE\<close>, and for \<open>n = 2\<close> it emits
  nothing, so the stored state stays. With no hand (no landmark field, or an empty list
  of hands) it emits nothing, marks the hand inactive, and the stored state stays.
\<close>

theorem C1_gesture_classifier:
  "(length lm = 21 \<longrightarrow>
      (\<exists>n\<le>5. extendedFingers lm = Inr n
         \<and> fst (onResults (Some (lm # others)) refs)
             = \<lparr>isHandActive = True, handX = lm_x (lm ! 0)\<rparr>
         \<and> (3 \<le> n \<longrightarrow>
               snd (onResults (Some (lm # others)) refs) = Inr (Some SCATTERED)
               \<and> snd (gestureFrame (Some (lm # others)) (refs, ts)) = SCATTERED)
         \<and> (n \<le> 1 \<longrightarrow>
               snd (onResults (Some (lm # others)) refs) = Inr (Some TREE_SHAPE)
               \<and> snd (gestureFrame (Some (lm # others)) (refs, ts)) = TREE_SHAPE)
         \<and> (n = 2 \<longrightarrow>
               snd (onResults (Some (lm # others)) refs) = Inr None
               \<and> snd (gestureFrame (Some (lm # others)) (refs, ts)) = ts)))
   \<and> onResults None refs = (refs\<lparr>isHandActive := False\<rparr>, Inr None)
   \<and> onResults (Some []) refs = (refs\<lparr>isHandActive := False\<rparr>, Inr None)
   \<and> gestureFrame None (refs, ts) = (refs\<lparr>isHandActive := False\<rparr>, ts)
   \<and> gestureFrame (Some []) (refs, ts) = (refs\<lparr>isHandActive := False\<rparr>, ts)"
proof (intro conjI impI)
  assume len: "length lm = 21"
  from extendedFingers_total[OF len] obtain n where n: "n \<le> 5" "extendedFingers lm = Inr n"
    by blast
  have l0: "landmark_at lm 0 = Inr (lm ! 0)" using len by (simp add: landmark_at_def)
  show "\<exists>n\<le>5. extendedFingers lm = Inr n
         \<and> fst (onResults (Some (lm # others)) refs)
             = \<lparr>isHandActive = True, handX = lm_x (lm ! 0)\<rparr>
         \<and> (3 \<le> n \<longrightarrow>
               snd (onResults (Some (lm # others)) refs) = Inr (Some SCATTERED)
               \<and> snd (gestureFrame (Some (lm # others)) (refs, ts)) = SCATTERED)
         \<and> (n \<le> 1 \<longrightarrow>
               snd (onResults (Some (lm # others)) refs) = Inr (Some TREE_SHAPE)
               \<and> snd (gestureFrame (Some (lm # others)) (refs, ts)) = TREE_SHAPE)
         \<and> (n = 2 \<longrightarrow>
               snd (onResults (Some (lm # others)) refs) = Inr None
               \<and> snd (gestureFrame (Some (lm # others)) (refs, ts)) = ts)"
    using n l0
    by (intro exI[of _ n])
       (simp add: onResults_def gestureFrame_def handleGestureStateChange_def)
qed (simp_all add: onResults_def gestureFrame_def)

theorem C1_gesture_classifier_witness:
  "extendedFingers (map (\<lambda>x. \<lparr>lm_x = x, lm_y = 0\<rparr>)
       [0, 0, 0, 0, 2, 0, 0, 0, 2, 1, 0, 0, 2, 0, 0, 0, 2, 0, 0, 0, 2]) = Inr 5
   \<and> gestureFrame (Some [map (\<lambda>x. \<lparr>lm_x = x, lm_y = 0\<rparr>)
       [0, 0, 0, 0, 2, 0, 0, 0, 2, 1, 0, 0, 2, 0, 0, 0, 2, 0, 0, 0, 2]])
       (\<lparr>isHandActive = False, handX = 0.5\<rparr>, TREE_SHAPE)
     = (\<lparr>isHandActive = True, handX = 0\<rparr>, SCATTERED)
   \<and> extendedFingers (map (\<lambda>x. \<lparr>lm_x = x, lm_y = 0\<rparr>)
       [0, 0, 0, 0, 0, 0, 0, 0, 2, 1, 0, 0, 2, 0, 0, 0, 0, 0, 0, 0, 0]) = Inr 2
   \<and> gestureFrame (Some [map (\<lambda>x. \<lparr>lm_x = x, lm_y = 0\<rparr>)
       [0, 0, 0, 0, 0, 0, 0, 0, 2, 1, 0, 0, 2, 0, 0, 0, 0, 0, 0, 0, 0]])
       (\<lparr>isHandActive = False, handX = 0.5\<rparr>, SCATTERED)
     = (\<lparr>isHandActive = True, handX = 0\<rparr>, SCATTERED)
   \<and> extendedFingers (map (\<lambda>x. \<lparr>lm_x = x, lm_y = 0\<rparr>)
       [0, 0, 0, 0, 0, 0, 0, 0, 0, 1, 0, 0, 0, 0, 0, 0, 0, 0, 0, 0, 0]) = Inr 0
   \<and> gestureFrame (Some [map (\<lambda>x. \<lparr>lm_x = x, lm_y = 0\<rparr>)
       [0, 0, 0, 0, 0, 0, 0, 0, 0, 1, 0, 0, 0, 0, 0, 0, 0, 0, 0, 0, 0]])
       (\<lparr>isHandActive = False, handX = 0.5\<rparr>, SCATTERED)
     = (\<lparr>isHandActive = True, handX = 0\<rparr>, TREE_SHAPE)"
proof -
  let ?mk = "map (\<lambda>x. \<lparr>lm_x = x, lm_y = 0\<rparr>)"
  let ?open = "?mk [0, 0, 0, 0, 2, 0, 0, 0, 2, 1, 0, 0, 2, 0, 0, 0, 2, 0, 0, 0, 2]"
  let ?two = "?mk [0, 0, 0, 0, 0, 0, 0, 0, 2, 1, 0, 0, 2, 0, 0, 0, 0, 0, 0, 0, 0]"
  let ?fist = "?mk [0, 0, 0, 0, 0, 0, 0, 0, 0, 1, 0, 0, 0, 0, 0, 0, 0, 0, 0, 0, 0]"
  let ?refs = "\<lparr>isHandActive = False, handX = 0.5\<rparr>"
  have c5: "extendedFingers ?open = Inr 5"
    by (simp add: extendedFingers_def landmark_at_def getDistance_def)
  have c2: "extendedFingers ?two = Inr 2"
    by (simp add: extendedFingers_def landmark_at_def getDistance_def)
  have c0: "extendedFingers ?fist = Inr 0"
    by (simp add: extendedFingers_def landmark_at_def getDistance_def)
  have g: "gestureFrame (Some [h]) (r, ts) = (fst (onResults (Some [h]) r), ts')"
    if "snd (gestureFrame (Some [h]) (r, ts)) = ts'" for h r ts ts'
    using that by (simp add: gestureFrame_def split: prod.splits sum.splits option.splits)
  have len: "length ?open = 21" "length ?two = 21" "length ?fist = 21" by simp_all
  from C1_gesture_classifier[of ?open "[]" ?refs TREE_SHAPE] len(1) c5
  have o: "fst (onResults (Some [?open]) ?refs) = \<lparr>isHandActive = True, handX = lm_x (?open ! 0)\<rparr>"
    "snd (gestureFrame (Some [?open]) (?refs, TREE_SHAPE)) = SCATTERED"
    by auto
  from C1_gesture_classifier[of ?two "[]" ?refs SCATTERED] len(2) c2
  have t: "fst (onResults (Some [?two]) ?refs) = \<lparr>isHandActive = True, handX = lm_x (?two ! 0)\<rparr>"
    "snd (gestureFrame (Some [?two]) (?refs, SCATTERED)) = SCATTERED"
    by auto
  from C1_gesture_classifier[of ?fist "[]" ?refs SCATTERED] len(3) c0
  have f: "fst (onResults (Some [?fist]) ?refs) = \<lparr>isHandActive = True, handX = lm_x (?fist ! 0)\<rparr>"
    "snd (gestureFrame (Some [?fist]) (?refs, SCATTERED)) = TREE_SHAPE"
    by auto
  have "gestureFrame (Some [?open]) (?refs, TREE_SHAPE) = (\<lparr>isHandActive = True, handX = 0\<rparr>, SCATTERED)"
    unfolding g[OF o(2)] o(1) by simp
  moreover have "gestureFrame (Some [?two]) (?refs, SCATTERED) = (\<lparr>isHandActive = True, handX = 0\<rparr>, SCATTERED)"
    unfolding g[OF t(2)] t(1) by simp
  moreover have "gestureFrame (Some [?fist]) (?refs, SCATTERED) = (\<lparr>isHandActive = True, handX = 0\<rparr>, TREE_SHAPE)"
    unfolding g[OF f(2)] f(1) by simp
  ultimately show ?thesis using c5 c2 c0 by blast
qed

section \<open>Morph progress and scene rotation\<close>

lemma progressRef_useFrame:
  "progressRef (Scene_useFrame delta props refs) =
     MathUtils_lerp (progressRef refs) (targetProgress props) (min (delta * 3.5) 1)"
  by (simp add: Scene_useFrame_def Let_def split: option.splits)

lemma lerp_between:
  assumes "0 \<le> a" "a \<le> 1"
  shows "min x y \<le> MathUtils_lerp x y a \<and> MathUtils_lerp x y a \<le> max x y"
proof (cases "x \<le> y")
  case True
  have "0 \<le> a * (y - x)" "0 \<le> (1 - a) * (y - x)"
    using assms True by simp_all
  then show ?thesis using True
    by (simp add: MathUtils_lerp_def algebra_simps)
next
  case False
  have "0 \<le> a * (x - y)" "0 \<le> (1 - a) * (x - y)"
    using assms False by simp_all
  then show ?thesis using False
    by (simp add: MathUtils_lerp_def algebra_simps)
qed

lemma lerp_error: "MathUtils_lerp x y a - y = (1 - a) * (x - y)"
  by (simp add: MathUtils_lerp_def algebra_simps)

lemma ease_fraction: "0 \<le> delta \<Longrightarrow> 0 \<le> min (delta * 3.5) (1::real) \<and> min (delta * 3.5) (1::real) \<le> 1"
  by simp

lemma targetProgress_cases: "targetProgress props = 0 \<or> targetProgress props = 1"
  by (simp add: targetProgress_def)

lemma progress_frames_range:
  "\<forall>d\<in>set ds. 0 \<le> d \<Longrightarrow> 0 \<le> progressRef refs \<Longrightarrow> progressRef refs \<le> 1 \<Longrightarrow>
   0 \<le> progressRef (Scene_frames ds props refs) \<and> progressRef (Scene_frames ds props refs) \<le> 1"
proof (induction ds arbitrary: refs)
  case Nil
  then show ?case by simp
next
  case (Cons d ds)
  let ?r = "Scene_useFrame d props refs"
  from Cons.prems have d: "0 \<le> d" by simp
  from lerp_between[OF ease_fraction[OF d, THEN conjunct1] ease_fraction[OF d, THEN conjunct2],
      of "progressRef refs" "targetProgress props"]
  have "0 \<le> progressRef ?r \<and> progressRef ?r \<le> 1"
    using Cons.prems(2,3) targetProgress_cases[of props]
    by (auto simp: progressRef_useFrame)
  moreover from Cons.prems have "\<forall>d\<in>set ds. 0 \<le> d" by simp
  ultimately show ?case using Cons.IH[of ?r] by simp
qed

lemma progress_frames_error:
  assumes "0 < dmin"
  shows "\<forall>d\<in>set ds. dmin \<le> d \<Longrightarrow>
   \<bar>progressRef (Scene_frames ds props refs) - targetProgress props\<bar>
     \<le> (1 - min (dmin * 3.5) 1) ^ length ds * \<bar>progressRef refs - targetProgress props\<bar>"
proof (induction ds arbitrary: refs)
  case Nil
  then show ?case by simp
next
  case (Cons d ds)
  let ?r = "Scene_useFrame d props refs"
  let ?c = "1 - min (dmin * 3.5) (1::real)"
  let ?T = "targetProgress props"
  from Cons.prems have d: "dmin \<le> d" and rest: "\<forall>d\<in>set ds. dmin \<le> d" by simp_all
  have c0: "0 \<le> ?c" by simp
  have a: "0 \<le> 1 - min (d * 3.5) 1" "1 - min (d * 3.5) 1 \<le> ?c"
    using d by (simp_all add: min_def)
  have "\<bar>progressRef ?r - ?T\<bar> = (1 - min (d * 3.5) 1) * \<bar>progressRef refs - ?T\<bar>"
    using a(1) by (simp add: progressRef_useFrame lerp_error abs_mult)
  also have "\<dots> \<le> ?c * \<bar>progressRef refs - ?T\<bar>"
    using a(2) by (simp add: mult_right_mono)
  finally have step: "\<bar>progressRef ?r - ?T\<bar> \<le> ?c * \<bar>progressRef refs - ?T\<bar>" .
  have "\<bar>progressRef (Scene_frames (d # ds) props refs) - ?T\<bar>
          \<le> ?c ^ length ds * \<bar>progressRef ?r - ?T\<bar>"
    using Cons.IH[OF rest, of ?r] by simp
  also have "\<dots> \<le> ?c ^ length ds * (?c * \<bar>progressRef refs - ?T\<bar>)"
    using step c0 by (simp add: mult_left_mono)
  finally show ?case by (simp add: mult_ac)
qed

lemma progress_frames_converge:
  assumes "0 < dmin" "0 < eps"
  shows "\<exists>N. \<forall>ds. N \<le> length ds \<and> (\<forall>d\<in>set ds. dmin \<le> d) \<longrightarrow>
           \<bar>progressRef (Scene_frames ds props refs) - targetProgress props\<bar> < eps"
proof -
  let ?c = "1 - min (dmin * 3.5) (1::real)"
  let ?e0 = "\<bar>progressRef refs - targetProgress props\<bar>"
  have c: "0 \<le> ?c" "?c < 1" using assms(1) by (simp_all add: min_def)
  have "0 < eps / (?e0 + 1)" using assms(2) by simp
  from real_arch_pow_inv[OF this c(2)] obtain N where N: "?c ^ N < eps / (?e0 + 1)" by blast
  have "\<bar>progressRef (Scene_frames ds props refs) - targetProgress props\<bar> < eps"
    if len: "N \<le> length ds" and ds: "\<forall>d\<in>set ds. dmin \<le> d" for ds
  proof -
    have "?c ^ length ds \<le> ?c ^ N" using c len by (simp add: power_decreasing)
    then have "?c ^ length ds < eps / (?e0 + 1)" using N by simp
    then have "?c ^ length ds * (?e0 + 1) < eps" by (simp add: pos_less_divide_eq)
    moreover have "?c ^ length ds * ?e0 \<le> ?c ^ length ds * (?e0 + 1)"
      using c(1) by (simp add: mult_left_mono)
    ultimately have "?c ^ length ds * ?e0 < eps" by simp
    with progress_frames_error[OF assms(1) ds, of props refs] show ?thesis by simp
  qed
  then show ?thesis by blast
qed


lemma progress_frames_zero_delta:
  "progressRef (Scene_frames (replicate n 0) props refs) = progressRef refs"
proof (induction n arbitrary: refs)
  case 0
  then show ?case by simp
next
  case (Suc n)
  have "progressRef (Scene_useFrame 0 props refs) = progressRef refs"
    by (simp add: progressRef_useFrame MathUtils_lerp_def)
  with Suc show ?case by simp
qed

lemma progress_frames_cong:
  "progressRef r1 = progressRef r2 \<Longrightarrow> treeState p1 = treeState p2 \<Longrightarrow>
   progressRef (Scene_frames ds p1 r1) = progressRef (Scene_frames ds p2 r2)"
proof (induction ds arbitrary: r1 r2)
  case Nil
  then show ?case by simp
next
  case (Cons d ds)
  have "progressRef (Scene_useFrame d p1 r1) = progressRef (Scene_useFrame d p2 r2)"
    using Cons.prems by (simp add: progressRef_useFrame targetProgress_def)
  from Cons.IH[OF this Cons.prems(2)] show ?case by simp
qed

lemma idle_useFrame:
  assumes "\<not> isDraggingPhoto props" "\<not> isHandActiveRef props" "\<not> isDraggingScene refs"
    "groupRef refs = Some r"
  shows "angularVelocity (Scene_useFrame delta props refs) =
           (if \<bar>angularVelocity refs * 0.96\<bar> < 0.06
            then MathUtils_lerp (angularVelocity refs * 0.96) 0.06 0.05
            else angularVelocity refs * 0.96)"
    and "groupRef (Scene_useFrame delta props refs) =
           Some (r + angularVelocity (Scene_useFrame delta props refs) * delta)"
    and "\<not> isDraggingScene (Scene_useFrame delta props refs)"
  using assms by (simp_all add: Scene_useFrame_def Let_def)

lemma idle_decreases:
  fixes v :: real
  assumes "0.06 < \<bar>v\<bar>"
  shows "\<bar>if \<bar>v * 0.96\<bar> < 0.06 then MathUtils_lerp (v * 0.96) 0.06 0.05 else v * 0.96\<bar> < \<bar>v\<bar>"
  using assms by (auto simp: MathUtils_lerp_def abs_if split: if_splits)

lemma idle_contracts:
  fixes v :: real
  shows "\<bar>(if \<bar>v * 0.96\<bar> < 0.06 then MathUtils_lerp (v * 0.96) 0.06 0.05 else v * 0.96) - 3 / 88\<bar>
           \<le> 39 / 40 * \<bar>v - 3 / 88\<bar>"
  by (auto simp: MathUtils_lerp_def abs_if split: if_splits)

lemma idle_frames_error:
  assumes "\<not> isDraggingPhoto props" "\<not> isHandActiveRef props"
  shows "\<not> isDraggingScene refs \<Longrightarrow> groupRef refs = Some r \<Longrightarrow>
     \<bar>angularVelocity (Scene_frames ds props refs) - 3 / 88\<bar>
       \<le> (39 / 40) ^ length ds * \<bar>angularVelocity refs - 3 / 88\<bar>"
proof (induction ds arbitrary: refs r)
  case Nil
  then show ?case by simp
next
  case (Cons d ds)
  let ?r = "Scene_useFrame d props refs"
  note st = idle_useFrame[OF assms Cons.prems, of d]
  have step: "\<bar>angularVelocity ?r - 3 / 88\<bar> \<le> 39 / 40 * \<bar>angularVelocity refs - 3 / 88\<bar>"
    unfolding st(1) by (rule idle_contracts)
  have "\<bar>angularVelocity (Scene_frames (d # ds) props refs) - 3 / 88\<bar>
          \<le> (39 / 40) ^ length ds * \<bar>angularVelocity ?r - 3 / 88\<bar>"
    using Cons.IH[OF st(3) st(2)] by simp
  also have "\<dots> \<le> (39 / 40) ^ length ds * (39 / 40 * \<bar>angularVelocity refs - 3 / 88\<bar>)"
    using step by (simp add: mult_left_mono)
  finally show ?case by (simp add: mult_ac)
qed

lemma idle_frames_converge:
  assumes "\<not> isDraggingPhoto props" "\<not> isHandActiveRef props"
    "\<not> isDraggingScene refs" "groupRef refs = Some r" "0 < eps"
  shows "\<exists>N. \<forall>ds. N \<le> length ds \<longrightarrow>
           \<bar>angularVelocity (Scene_frames ds props refs) - 3 / 88\<bar> < eps"
proof -
  let ?c = "39 / 40 :: real"
  let ?e0 = "\<bar>angularVelocity refs - 3 / 88\<bar>"
  have "0 < eps / (?e0 + 1)" using assms(5) by simp
  from real_arch_pow_inv[OF this, of ?c] obtain N where N: "?c ^ N < eps / (?e0 + 1)" by auto
  have "\<bar>angularVelocity (Scene_frames ds props refs) - 3 / 88\<bar> < eps"
    if len: "N \<le> length ds" for ds
  proof -
    have "?c ^ length ds \<le> ?c ^ N" by (rule power_decreasing) (use len in simp_all)
    from this N have "?c ^ length ds < eps / (?e0 + 1)" by (rule order.strict_trans1)
    then have lt: "?c ^ length ds * (?e0 + 1) < eps" by (simp add: pos_less_divide_eq)
    have le: "?c ^ length ds * ?e0 \<le> ?c ^ length ds * (?e0 + 1)"
      by (rule mult_left_mono) simp_all
    from le lt have "?c ^ length ds * ?e0 < eps" by (rule order.strict_trans1)
    with idle_frames_error[OF assms(1-4), of ds] show ?thesis by simp
  qed
  then show ?thesis by blast
qed


text \<open>
  C2, as the code has it. The target is 0 or 1 and the easing fraction
  \<open>min (delta * 3.5) 1\<close> is at most 1. For a frame time \<open>delta \<ge> 0\<close> the new progress
  lies between the old progress and the target and is no farther from the target than
  before. Over any frames with frame times \<open>\<ge> 0\<close>, a progress that starts in [0,1]
  stays in [0,1]. When every frame time is at least some \<open>dmin > 0\<close>, the progress is
  within any \<open>eps > 0\<close> of the target after enough frames.
\<close>

theorem C2_progress_eases_toward_target:
  "(targetProgress props = 0 \<or> targetProgress props = 1)
   \<and> progressRef (Scene_useFrame delta props refs)
       = MathUtils_lerp (progressRef refs) (targetProgress props) (min (delta * 3.5) 1)
   \<and> min (delta * 3.5) 1 \<le> (1::real)
   \<and> (0 \<le> delta \<longrightarrow>
         min (progressRef refs) (targetProgress props) \<le> progressRef (Scene_useFrame delta props refs)
         \<and> progressRef (Scene_useFrame delta props refs) \<le> max (progressRef refs) (targetProgress props)
         \<and> \<bar>progressRef (Scene_useFrame delta props refs) - targetProgress props\<bar>
             \<le> \<bar>progressRef refs - targetProgress props\<bar>)
   \<and> ((\<forall>d\<in>set ds. 0 \<le> d) \<and> 0 \<le> progressRef refs \<and> progressRef refs \<le> 1 \<longrightarrow>
         0 \<le> progressRef (Scene_frames ds props refs)
         \<and> progressRef (Scene_frames ds props refs) \<le> 1)
   \<and> (0 < dmin \<and> 0 < eps \<longrightarrow>
         (\<exists>N. \<forall>fs. N \<le> length fs \<and> (\<forall>d\<in>set fs. dmin \<le> d) \<longrightarrow>
            \<bar>progressRef (Scene_frames fs props refs) - targetProgress props\<bar> < eps))"
proof (intro conjI impI)
  show "targetProgress props = 0 \<or> targetProgress props = 1" by (rule targetProgress_cases)
  show "progressRef (Scene_useFrame delta props refs)
       = MathUtils_lerp (progressRef refs) (targetProgress props) (min (delta * 3.5) 1)"
    by (rule progressRef_useFrame)
  show "min (delta * 3.5) 1 \<le> (1::real)" by simp
next
  assume d: "0 \<le> delta"
  note a = ease_fraction[OF d]
  from lerp_between[OF a[THEN conjunct1] a[THEN conjunct2], of "progressRef refs" "targetProgress props"]
  show "min (progressRef refs) (targetProgress props) \<le> progressRef (Scene_useFrame delta props refs)"
    and "progressRef (Scene_useFrame delta props refs) \<le> max (progressRef refs) (targetProgress props)"
    by (simp_all add: progressRef_useFrame)
  have "\<bar>progressRef (Scene_useFrame delta props refs) - targetProgress props\<bar>
          = (1 - min (delta * 3.5) 1) * \<bar>progressRef refs - targetProgress props\<bar>"
    by (simp add: progressRef_useFrame lerp_error abs_mult)
  also have "\<dots> \<le> 1 * \<bar>progressRef refs - targetProgress props\<bar>"
    by (rule mult_right_mono) (use d in simp_all)
  finally show "\<bar>progressRef (Scene_useFrame delta props refs) - targetProgress props\<bar>
             \<le> \<bar>progressRef refs - targetProgress props\<bar>" by simp
next
  assume h: "(\<forall>d\<in>set ds. 0 \<le> d) \<and> 0 \<le> progressRef refs \<and> progressRef refs \<le> 1"
  then show "0 \<le> progressRef (Scene_frames ds props refs)"
    and "progressRef (Scene_frames ds props refs) \<le> 1"
    using progress_frames_range[of ds refs props] by simp_all
next
  assume "0 < dmin \<and> 0 < eps"
  then show "\<exists>N. \<forall>fs. N \<le> length fs \<and> (\<forall>d\<in>set fs. dmin \<le> d) \<longrightarrow>
            \<bar>progressRef (Scene_frames fs props refs) - targetProgress props\<bar> < eps"
    using progress_frames_converge[of dmin eps props refs] by simp
qed

theorem C2_progress_eases_toward_target_witness:
  "progressRef (Scene_useFrame 0.1
       \<lparr>treeState = TREE_SHAPE, isDraggingPhoto = False, handXRef = 0.5, isHandActiveRef = False\<rparr>
       scene_init) = 0.35
   \<and> 0 \<le> progressRef (Scene_frames [0.1, 0.5]
       \<lparr>treeState = TREE_SHAPE, isDraggingPhoto = False, handXRef = 0.5, isHandActiveRef = False\<rparr>
       scene_init)
   \<and> progressRef (Scene_frames [0.1, 0.5]
       \<lparr>treeState = TREE_SHAPE, isDraggingPhoto = False, handXRef = 0.5, isHandActiveRef = False\<rparr>
       scene_init) \<le> 1
   \<and> (\<exists>N. \<forall>fs. N \<le> length fs \<and> (\<forall>d\<in>set fs. 0.1 \<le> d) \<longrightarrow>
         \<bar>progressRef (Scene_frames fs
            \<lparr>treeState = TREE_SHAPE, isDraggingPhoto = False, handXRef = 0.5, isHandActiveRef = False\<rparr>
            scene_init) - 1\<bar> < 0.01)"
proof -
  let ?P = "\<lparr>treeState = TREE_SHAPE, isDraggingPhoto = False, handXRef = 0.5, isHandActiveRef = False\<rparr>"
  note inst = C2_progress_eases_toward_target[of ?P "0.1" scene_init "[0.1, 0.5]" "0.1" "0.01"]
  have T: "targetProgress ?P = 1" by (simp add: targetProgress_def)
  have p0: "progressRef scene_init = 0" by (simp add: scene_init_def)
  from inst have "progressRef (Scene_useFrame 0.1 ?P scene_init)
       = MathUtils_lerp (progressRef scene_init) (targetProgress ?P) (min (0.1 * 3.5) 1)"
    by blast
  then have one: "progressRef (Scene_useFrame 0.1 ?P scene_init) = 0.35"
    by (simp add: targetProgress_def scene_init_def MathUtils_lerp_def)
  have "(\<forall>d\<in>set [0.1, 0.5::real]. 0 \<le> d) \<and> 0 \<le> progressRef scene_init \<and> progressRef scene_init \<le> 1"
    by (simp add: p0)
  with inst have two: "0 \<le> progressRef (Scene_frames [0.1, 0.5] ?P scene_init)
         \<and> progressRef (Scene_frames [0.1, 0.5] ?P scene_init) \<le> 1"
    by blast
  have "(0::real) < 0.1 \<and> (0::real) < 0.01" by simp
  with inst have "\<exists>N. \<forall>fs. N \<le> length fs \<and> (\<forall>d\<in>set fs. 0.1 \<le> d) \<longrightarrow>
         \<bar>progressRef (Scene_frames fs ?P scene_init) - targetProgress ?P\<bar> < 0.01"
    by blast
  then have three: "\<exists>N. \<forall>fs. N \<le> length fs \<and> (\<forall>d\<in>set fs. 0.1 \<le> d) \<longrightarrow>
         \<bar>progressRef (Scene_frames fs ?P scene_init) - 1\<bar> < 0.01"
    unfolding T .
  from one two three show ?thesis by blast
qed

text \<open>
  C2 as stated lets the frame times be any \<open>delta \<ge> 0\<close>. With \<open>delta = 0\<close> in every
  frame the progress never leaves its initial value 0 while the target is 1, so it does
  not converge.
\<close>

theorem C2_zero_frame_time_counterexample:
  "\<not> (\<forall>eps>0. \<exists>N. \<forall>n\<ge>N.
        \<bar>progressRef (Scene_frames (replicate n 0)
            \<lparr>treeState = TREE_SHAPE, isDraggingPhoto = False, handXRef = 0.5, isHandActiveRef = False\<rparr>
            scene_init)
          - targetProgress
            \<lparr>treeState = TREE_SHAPE, isDraggingPhoto = False, handXRef = 0.5, isHandActiveRef = False\<rparr>\<bar>
        < eps)"
proof
  let ?P = "\<lparr>treeState = TREE_SHAPE, isDraggingPhoto = False, handXRef = 0.5, isHandActiveRef = False\<rparr>"
  assume "\<forall>eps>0. \<exists>N. \<forall>n\<ge>N.
     \<bar>progressRef (Scene_frames (replicate n 0) ?P scene_init) - targetProgress ?P\<bar> < eps"
  moreover have "(0::real) < 1 / 2" by simp
  ultimately have "\<exists>N. \<forall>n\<ge>N.
     \<bar>progressRef (Scene_frames (replicate n 0) ?P scene_init) - targetProgress ?P\<bar> < 1 / 2"
    by blast
  then obtain N where
    "\<bar>progressRef (Scene_frames (replicate N 0) ?P scene_init) - targetProgress ?P\<bar> < 1 / 2"
    by blast
  then show False
    by (simp add: progress_frames_zero_delta scene_init_def targetProgress_def)
qed


text \<open>
  C7, as the code has it. In a frame with no photo drag, no hand and no scene drag, and
  the group mounted, the velocity is multiplied by 0.96 and, when the result is below the
  idle speed 0.06 in magnitude, eased a twentieth of the way to 0.06. While the magnitude
  exceeds 0.06 it strictly decreases. The rotation angle then advances by the new
  velocity times \<open>delta\<close>. Each such frame brings the velocity closer to 3/88 by a
  factor of at most 39/40, so over successive frames it approaches 3/88 (about 0.034),
  which is positive and below the idle speed.
\<close>

theorem C7_idle_rotation_friction:
  "\<not> isDraggingPhoto props \<and> \<not> isHandActiveRef props \<and> \<not> isDraggingScene refs
     \<and> groupRef refs = Some r \<longrightarrow>
     angularVelocity (Scene_useFrame delta props refs) =
       (if \<bar>angularVelocity refs * 0.96\<bar> < 0.06
        then MathUtils_lerp (angularVelocity refs * 0.96) 0.06 0.05
        else angularVelocity refs * 0.96)
     \<and> (0.06 < \<bar>angularVelocity refs\<bar> \<longrightarrow>
           \<bar>angularVelocity (Scene_useFrame delta props refs)\<bar> < \<bar>angularVelocity refs\<bar>)
     \<and> groupRef (Scene_useFrame delta props refs)
         = Some (r + angularVelocity (Scene_useFrame delta props refs) * delta)
     \<and> \<bar>angularVelocity (Scene_useFrame delta props refs) - 3 / 88\<bar>
         \<le> 39 / 40 * \<bar>angularVelocity refs - 3 / 88\<bar>
     \<and> (0 < eps \<longrightarrow>
           (\<exists>N. \<forall>ds. N \<le> length ds \<longrightarrow>
              \<bar>angularVelocity (Scene_frames ds props refs) - 3 / 88\<bar> < eps))
     \<and> (0::real) < 3 / 88 \<and> (3 / 88 :: real) < 0.06"
proof (intro impI)
  assume idle: "\<not> isDraggingPhoto props \<and> \<not> isHandActiveRef props \<and> \<not> isDraggingScene refs
     \<and> groupRef refs = Some r"
  then have a: "\<not> isDraggingPhoto props" "\<not> isHandActiveRef props" "\<not> isDraggingScene refs"
    "groupRef refs = Some r" by simp_all
  note st = idle_useFrame[OF a, of delta]
  have dec: "0.06 < \<bar>angularVelocity refs\<bar> \<longrightarrow>
           \<bar>angularVelocity (Scene_useFrame delta props refs)\<bar> < \<bar>angularVelocity refs\<bar>"
    unfolding st(1) using idle_decreases[of "angularVelocity refs"] by blast
  have con: "\<bar>angularVelocity (Scene_useFrame delta props refs) - 3 / 88\<bar>
         \<le> 39 / 40 * \<bar>angularVelocity refs - 3 / 88\<bar>"
    unfolding st(1) by (rule idle_contracts)
  have lim: "0 < eps \<longrightarrow>
           (\<exists>N. \<forall>ds. N \<le> length ds \<longrightarrow>
              \<bar>angularVelocity (Scene_frames ds props refs) - 3 / 88\<bar> < eps)"
    using idle_frames_converge[OF a, of eps] by blast
  have num: "(0::real) < 3 / 88 \<and> (3 / 88 :: real) < 0.06" by simp
  from st(1) dec st(2) con lim num
  show "angularVelocity (Scene_useFrame delta props refs) =
       (if \<bar>angularVelocity refs * 0.96\<bar> < 0.06
        then MathUtils_lerp (angularVelocity refs * 0.96) 0.06 0.05
        else angularVelocity refs * 0.96)
     \<and> (0.06 < \<bar>angularVelocity refs\<bar> \<longrightarrow>
           \<bar>angularVelocity (Scene_useFrame delta props refs)\<bar> < \<bar>angularVelocity refs\<bar>)
     \<and> groupRef (Scene_useFrame delta props refs)
         = Some (r + angularVelocity (Scene_useFrame delta props refs) * delta)
     \<and> \<bar>angularVelocity (Scene_useFrame delta props refs) - 3 / 88\<bar>
         \<le> 39 / 40 * \<bar>angularVelocity refs - 3 / 88\<bar>
     \<and> (0 < eps \<longrightarrow>
           (\<exists>N. \<forall>ds. N \<le> length ds \<longrightarrow>
              \<bar>angularVelocity (Scene_frames ds props refs) - 3 / 88\<bar> < eps))
     \<and> (0::real) < 3 / 88 \<and> (3 / 88 :: real) < 0.06"
    by blast
qed

theorem C7_idle_rotation_friction_witness:
  "angularVelocity (Scene_useFrame (1 / 60)
       \<lparr>treeState = TREE_SHAPE, isDraggingPhoto = False, handXRef = 0.5, isHandActiveRef = False\<rparr>
       (scene_init\<lparr>groupRef := Some 0\<rparr>)) = 0.144
   \<and> groupRef (Scene_useFrame (1 / 60)
       \<lparr>treeState = TREE_SHAPE, isDraggingPhoto = False, handXRef = 0.5, isHandActiveRef = False\<rparr>
       (scene_init\<lparr>groupRef := Some 0\<rparr>)) = Some 0.0024
   \<and> (\<exists>N. \<forall>ds. N \<le> length ds \<longrightarrow>
         \<bar>angularVelocity (Scene_frames ds
            \<lparr>treeState = TREE_SHAPE, isDraggingPhoto = False, handXRef = 0.5, isHandActiveRef = False\<rparr>
            (scene_init\<lparr>groupRef := Some 0\<rparr>)) - 3 / 88\<bar> < 0.001)"
proof -
  let ?P = "\<lparr>treeState = TREE_SHAPE, isDraggingPhoto = False, handXRef = 0.5, isHandActiveRef = False\<rparr>"
  let ?R = "scene_init\<lparr>groupRef := Some 0\<rparr>"
  have idle: "\<not> isDraggingPhoto ?P \<and> \<not> isHandActiveRef ?P \<and> \<not> isDraggingScene ?R
     \<and> groupRef ?R = Some 0"
    by (simp add: scene_init_def)
  note inst = C7_idle_rotation_friction[of ?P ?R 0 "1 / 60" "0.001", rule_format, OF idle]
  from inst have v: "angularVelocity (Scene_useFrame (1 / 60) ?P ?R) =
       (if \<bar>angularVelocity ?R * 0.96\<bar> < 0.06
        then MathUtils_lerp (angularVelocity ?R * 0.96) 0.06 0.05
        else angularVelocity ?R * 0.96)"
    by blast
  then have one: "angularVelocity (Scene_useFrame (1 / 60) ?P ?R) = 0.144"
    by (simp add: scene_init_def)
  from inst have "groupRef (Scene_useFrame (1 / 60) ?P ?R)
         = Some (0 + angularVelocity (Scene_useFrame (1 / 60) ?P ?R) * (1 / 60))"
    by blast
  then have two: "groupRef (Scene_useFrame (1 / 60) ?P ?R) = Some 0.0024"
    unfolding one by simp
  have "(0::real) < 0.001" by simp
  with inst have three: "\<exists>N. \<forall>ds. N \<le> length ds \<longrightarrow>
         \<bar>angularVelocity (Scene_frames ds ?P ?R) - 3 / 88\<bar> < 0.001"
    by blast
  from one two three show ?thesis by blast
qed

text \<open>
  C7 as stated has the velocity approach the idle speed 0.06. From the initial velocity
  0.15 with the group mounted and no input, it does not: the friction is applied in
  every frame, also below the idle speed, and the velocity settles at 3/88.
\<close>

theorem C7_idle_speed_counterexample:
  "\<not> (\<forall>eps>0. \<exists>N. \<forall>n\<ge>N.
        \<bar>angularVelocity (Scene_frames (replicate n (1 / 60))
            \<lparr>treeState = TREE_SHAPE, isDraggingPhoto = False, handXRef = 0.5, isHandActiveRef = False\<rparr>
            (scene_init\<lparr>groupRef := Some 0\<rparr>)) - 0.06\<bar> < eps)"
proof
  let ?P = "\<lparr>treeState = TREE_SHAPE, isDraggingPhoto = False, handXRef = 0.5, isHandActiveRef = False\<rparr>"
  let ?R = "scene_init\<lparr>groupRef := Some 0\<rparr>"
  let ?v = "\<lambda>n. angularVelocity (Scene_frames (replicate n (1 / 60)) ?P ?R)"
  assume "\<forall>eps>0. \<exists>N. \<forall>n\<ge>N. \<bar>?v n - 0.06\<bar> < eps"
  moreover have pos: "(0::real) < 0.01" by simp
  ultimately obtain N1 where N1: "\<forall>n\<ge>N1. \<bar>?v n - 0.06\<bar> < 0.01" by blast
  have "\<not> isDraggingPhoto ?P" "\<not> isHandActiveRef ?P" "\<not> isDraggingScene ?R" "groupRef ?R = Some 0"
    by (simp_all add: scene_init_def)
  from idle_frames_converge[OF this pos] obtain N2 where
    N2: "\<forall>ds. N2 \<le> length ds \<longrightarrow> \<bar>angularVelocity (Scene_frames ds ?P ?R) - 3 / 88\<bar> < 0.01"
    by blast
  let ?n = "max N1 N2"
  from N1 have a: "\<bar>?v ?n - 0.06\<bar> < 0.01" by simp
  from N2[rule_format, of "replicate ?n (1 / 60)"] have b: "\<bar>?v ?n - 3 / 88\<bar> < 0.01" by simp
  from a b show False by (simp add: abs_if split: if_splits)
qed

text \<open>
  C9. The progress after a frame is the eased value whatever the props say about a
  photo drag: a frame, and any run of frames, gives the same progress with
  \<open>isDraggingPhoto\<close> set as with it cleared. With a photo drag and the group mounted,
  the frame sets the angular velocity to 0 and leaves the rotation angle as it was.
\<close>

theorem C9_photo_drag_keeps_progress:
  "progressRef (Scene_useFrame delta props refs)
     = MathUtils_lerp (progressRef refs) (targetProgress props) (min (delta * 3.5) 1)
   \<and> progressRef (Scene_useFrame delta (props\<lparr>isDraggingPhoto := True\<rparr>) refs)
     = progressRef (Scene_useFrame delta (props\<lparr>isDraggingPhoto := False\<rparr>) refs)
   \<and> progressRef (Scene_frames ds (props\<lparr>isDraggingPhoto := True\<rparr>) refs)
     = progressRef (Scene_frames ds (props\<lparr>isDraggingPhoto := False\<rparr>) refs)
   \<and> (isDraggingPhoto props \<and> groupRef refs = Some r \<longrightarrow>
         angularVelocity (Scene_useFrame delta props refs) = 0
         \<and> groupRef (Scene_useFrame delta props refs) = Some r)"
proof (intro conjI impI)
  show "progressRef (Scene_useFrame delta props refs)
     = MathUtils_lerp (progressRef refs) (targetProgress props) (min (delta * 3.5) 1)"
    by (rule progressRef_useFrame)
  show "progressRef (Scene_useFrame delta (props\<lparr>isDraggingPhoto := True\<rparr>) refs)
     = progressRef (Scene_useFrame delta (props\<lparr>isDraggingPhoto := False\<rparr>) refs)"
    by (simp add: progressRef_useFrame targetProgress_def)
  show "progressRef (Scene_frames ds (props\<lparr>isDraggingPhoto := True\<rparr>) refs)
     = progressRef (Scene_frames ds (props\<lparr>isDraggingPhoto := False\<rparr>) refs)"
    by (rule progress_frames_cong) simp_all
next
  assume "isDraggingPhoto props \<and> groupRef refs = Some r"
  then show "angularVelocity (Scene_useFrame delta props refs) = 0"
    and "groupRef (Scene_useFrame delta props refs) = Some r"
    by (simp_all add: Scene_useFrame_def Let_def)
qed

theorem C9_photo_drag_keeps_progress_witness:
  "progressRef (Scene_useFrame 0.1
       \<lparr>treeState = TREE_SHAPE, isDraggingPhoto = True, handXRef = 0.5, isHandActiveRef = False\<rparr>
       (scene_init\<lparr>groupRef := Some 2\<rparr>)) = 0.35
   \<and> angularVelocity (Scene_useFrame 0.1
       \<lparr>treeState = TREE_SHAPE, isDraggingPhoto = True, handXRef = 0.5, isHandActiveRef = False\<rparr>
       (scene_init\<lparr>groupRef := Some 2\<rparr>)) = 0
   \<and> groupRef (Scene_useFrame 0.1
       \<lparr>treeState = TREE_SHAPE, isDraggingPhoto = True, handXRef = 0.5, isHandActiveRef = False\<rparr>
       (scene_init\<lparr>groupRef := Some 2\<rparr>)) = Some 2"
proof -
  let ?P = "\<lparr>treeState = TREE_SHAPE, isDraggingPhoto = True, handXRef = 0.5, isHandActiveRef = False\<rparr>"
  let ?R = "scene_init\<lparr>groupRef := Some 2\<rparr>"
  note inst = C9_photo_drag_keeps_progress[of "0.1" ?P ?R "[]" 2]
  have drag: "isDraggingPhoto ?P \<and> groupRef ?R = Some 2" by simp
  from inst have "progressRef (Scene_useFrame 0.1 ?P ?R)
     = MathUtils_lerp (progressRef ?R) (targetProgress ?P) (min (0.1 * 3.5) 1)"
    by blast
  then have one: "progressRef (Scene_useFrame 0.1 ?P ?R) = 0.35"
    by (simp add: targetProgress_def scene_init_def MathUtils_lerp_def)
  from inst drag have two: "angularVelocity (Scene_useFrame 0.1 ?P ?R) = 0
         \<and> groupRef (Scene_useFrame 0.1 ?P ?R) = Some 2"
    by blast
  from one two show ?thesis by blast
qed

section \<open>Foliage shader: alpha and position at full progress\<close>

lemma smoothstep_unit: "0 \<le> x \<Longrightarrow> x \<le> 1 \<Longrightarrow> smoothstep 0 1 x = x * x * (3 - 2 * x)"
  by (simp add: smoothstep_def clamp_def)

lemma smoothstep_at_one: "smoothstep 0 1 1 = 1"
  by (simp add: smoothstep_def clamp_def)

lemma cubic_strict_mono:
  fixes a b :: real
  assumes "0 \<le> a" "a < b" "b \<le> 1"
  shows "a * a * (3 - 2 * a) < b * b * (3 - 2 * b)"
proof -
  have "0 \<le> a * (1 - a)" "0 \<le> b * (1 - b)" "0 \<le> a * (1 - b)" "0 < b * (1 - a)"
    using assms by simp_all
  then have "0 < 3 * (a + b) - 2 * (a * a + a * b + b * b)"
    by (simp add: algebra_simps)
  moreover have "0 < b - a" using assms by simp
  ultimately have "0 < (b - a) * (3 * (a + b) - 2 * (a * a + a * b + b * b))"
    by (rule mult_pos_pos[rotated])
  also have "\<dots> = b * b * (3 - 2 * b) - a * a * (3 - 2 * a)"
    by (simp add: algebra_simps)
  finally show ?thesis by simp
qed

lemma smoothstep_strict_mono:
  "0 \<le> p1 \<Longrightarrow> p1 < p2 \<Longrightarrow> p2 \<le> 1 \<Longrightarrow> smoothstep 0 1 p1 < smoothstep 0 1 p2"
  using cubic_strict_mono[of p1 p2] by (simp add: smoothstep_unit)

lemma smoothstep_range:
  "0 \<le> smoothstep e0 e1 x \<and> smoothstep e0 e1 x \<le> 1"
proof -
  define t where "t = clamp ((x - e0) / (e1 - e0)) 0 1"
  have t: "0 \<le> t" "t \<le> 1" by (simp_all add: t_def clamp_def)
  have "0 \<le> t * t * (3 - 2 * t)" using t by simp
  moreover have "0 \<le> (1 - t) * (1 - t) * (1 + 2 * t)" using t by simp
  then have "t * t * (3 - 2 * t) \<le> 1" by (simp add: algebra_simps)
  ultimately show ?thesis by (simp add: smoothstep_def t_def[symmetric] Let_def)
qed

lemma fade_factor_one:
  "0 \<le> uProgress \<Longrightarrow> smoothstep 0.0 0.1 (uProgress * 0.5 + 0.5) = 1"
  by (simp add: smoothstep_def clamp_def)

lemma vAlpha_closed_form:
  "0 \<le> uProgress \<Longrightarrow> foliage_vAlpha uProgress = 0.75 + 0.25 * (1 - smoothstep 0 1 uProgress)"
  using fade_factor_one[of uProgress] by (simp add: foliage_vAlpha_def Let_def)

text \<open>
  C8, as the code has it. For a progress in [0,1] the fade-in factor
  \<open>smoothstep(0.0, 0.1, uProgress * 0.5 + 0.5)\<close> is 1, so the alpha is
  \<open>0.75 + 0.25 * (1 - t)\<close> with \<open>t\<close> the blend factor, between 0.75 and 1, the same
  for every particle and every time. A smaller blend factor gives a strictly larger
  alpha, and a smaller progress gives a strictly smaller blend factor. At the initial
  value of the progress uniform the alpha is 1.
\<close>

theorem C8_alpha_by_blend:
  "(0 \<le> uProgress \<and> uProgress \<le> 1 \<longrightarrow>
      smoothstep 0.0 0.1 (uProgress * 0.5 + 0.5) = 1
      \<and> foliage_vAlpha uProgress = 0.75 + 0.25 * (1 - smoothstep 0 1 uProgress)
      \<and> 0.75 \<le> foliage_vAlpha uProgress \<and> foliage_vAlpha uProgress \<le> 1)
   \<and> (0 \<le> p1 \<and> p1 \<le> 1 \<and> 0 \<le> p2 \<and> p2 \<le> 1 \<and> smoothstep 0 1 p1 < smoothstep 0 1 p2 \<longrightarrow>
        foliage_vAlpha p2 < foliage_vAlpha p1)
   \<and> (0 \<le> p1 \<and> p1 < p2 \<and> p2 \<le> 1 \<longrightarrow>
        smoothstep 0 1 p1 < smoothstep 0 1 p2 \<and> foliage_vAlpha p2 < foliage_vAlpha p1)
   \<and> foliage_vAlpha uProgress_init = 1"
proof (intro conjI impI)
  assume h: "0 \<le> uProgress \<and> uProgress \<le> 1"
  then show "smoothstep 0.0 0.1 (uProgress * 0.5 + 0.5) = 1"
    using fade_factor_one[of uProgress] by blast
  from h show cf: "foliage_vAlpha uProgress = 0.75 + 0.25 * (1 - smoothstep 0 1 uProgress)"
    by (simp add: vAlpha_closed_form)
  from smoothstep_range[of 0 1 uProgress]
  have "0 \<le> smoothstep 0 1 uProgress" "smoothstep 0 1 uProgress \<le> 1" by simp_all
  then show "0.75 \<le> foliage_vAlpha uProgress" and "foliage_vAlpha uProgress \<le> 1"
    unfolding cf by (simp_all add: field_simps)
next
  assume "0 \<le> p1 \<and> p1 \<le> 1 \<and> 0 \<le> p2 \<and> p2 \<le> 1 \<and> smoothstep 0 1 p1 < smoothstep 0 1 p2"
  then show "foliage_vAlpha p2 < foliage_vAlpha p1"
    by (simp add: vAlpha_closed_form)
next
  assume h: "0 \<le> p1 \<and> p1 < p2 \<and> p2 \<le> 1"
  then show lt: "smoothstep 0 1 p1 < smoothstep 0 1 p2"
    using smoothstep_strict_mono[of p1 p2] by simp
  from h have "0 \<le> p1" "0 \<le> p2" by simp_all
  then show "foliage_vAlpha p2 < foliage_vAlpha p1"
    using lt by (simp add: vAlpha_closed_form)
next
  show "foliage_vAlpha uProgress_init = 1"
    by (simp add: vAlpha_closed_form uProgress_init_def smoothstep_def clamp_def)
qed

theorem C8_alpha_by_blend_witness:
  "foliage_vAlpha 0.5 = 0.875 \<and> foliage_vAlpha 1 = 0.75 \<and> foliage_vAlpha 1 < foliage_vAlpha 0.5"
proof -
  note inst = C8_alpha_by_blend[of "0.5" "0.5" 1]
  have "(0::real) \<le> 0.5 \<and> (0.5::real) \<le> 1" by simp
  with inst have "foliage_vAlpha 0.5 = 0.75 + 0.25 * (1 - smoothstep 0 1 0.5)" by blast
  then have one: "foliage_vAlpha 0.5 = 0.875" by (simp add: smoothstep_def clamp_def)
  have "(0::real) \<le> 0.5 \<and> (0.5::real) < 1 \<and> (1::real) \<le> 1" by simp
  with inst have two: "foliage_vAlpha 1 < foliage_vAlpha 0.5" by blast
  have three: "foliage_vAlpha 1 = 0.75"
    by (simp add: vAlpha_closed_form smoothstep_at_one)
  from one two three show ?thesis by blast
qed

text \<open>
  C8 as stated has the alpha equal zero while the progress is at its initial value. The
  progress uniform starts at 0, and there the alpha is 1.
\<close>

theorem C8_initial_alpha_counterexample:
  "foliage_vAlpha uProgress_init = 1 \<and> foliage_vAlpha uProgress_init \<noteq> 0"
  by (simp add: vAlpha_closed_form uProgress_init_def smoothstep_def clamp_def)


lemma smoothstep_reversed_at_one: "smoothstep (4 / 5) 0 1 = 0"
  by (simp add: smoothstep_def clamp_def)

lemma mix3_at_one: "mix3 x y 1 = y"
  by (simp add: mix3_def mix_def)

lemma vec3_length_nonneg: "0 \<le> vec3_length v"
  by (simp add: vec3_length_def)

lemma vec3_length_scale: "vec3_length (vec3_scale v k) = \<bar>k\<bar> * vec3_length v"
proof -
  have "vx v * k * (vx v * k) + vy v * k * (vy v * k) + vz v * k * (vz v * k)
          = k\<^sup>2 * (vx v * vx v + vy v * vy v + vz v * vz v)"
    by (simp add: algebra_simps power2_eq_square)
  then show ?thesis
    by (simp add: vec3_length_def vec3_scale_def real_sqrt_mult)
qed

lemma vec3_add_sub_cancel: "vec3_sub (vec3_add a b) a = b"
  by (cases a, cases b) (simp add: vec3_add_def vec3_sub_def)

lemma foliage_at_full_progress:
  assumes "vec3_length (aScatterPos p) \<noteq> 0" "vec3_length (aTreePos p) \<noteq> 0"
  shows "foliage_currentPos tm 1 p =
           Some (vec3_add (aTreePos p)
                  (vec3_scale (vec3_scale (aTreePos p) (1 / vec3_length (aTreePos p)))
                     (0.3 * sin (tm * 1.5 + aPhase p))))"
proof -
  have tree: "Vec3 (vx (aTreePos p)) (vy (aTreePos p)) (vz (aTreePos p)) = aTreePos p" by simp
  have zero: "vec3_add (aTreePos p) (vec3_scale d 0) = aTreePos p" for d
    by (simp add: vec3_add_def vec3_scale_def)
  show ?thesis
    using assms
    by (simp add: foliage_currentPos_def Let_def smoothstep_at_one smoothstep_reversed_at_one
        mix3_at_one glsl_normalize_def zero tree)
      (simp add: vec3_scale_def algebra_simps)
qed


lemma residual_breathing_distance:
  assumes "vec3_length v \<noteq> 0"
  shows "glsl_distance (vec3_add v (vec3_scale (vec3_scale v (1 / vec3_length v)) k)) v = \<bar>k\<bar>"
proof -
  have "0 < vec3_length v" using assms vec3_length_nonneg[of v] by simp
  then show ?thesis
    by (simp add: glsl_distance_def vec3_add_sub_cancel vec3_length_scale)
qed

text \<open>
  C3, as the code has it. For a particle whose scatter and tree positions are not the
  zero vector, at progress 1 and any time the interpolation gives the tree position and
  the explosion and chaos terms are zero, but the breathing term is scaled by
  \<open>1.1 - t = 0.1\<close>: the computed position is the tree position moved along its own
  direction by \<open>0.3 * sin (time * 1.5 + phase)\<close>, at distance
  \<open>0.3 * \<bar>sin (time * 1.5 + phase)\<bar> \<le> 0.3\<close> from the tree position.
\<close>

theorem C3_full_progress_position:
  "vec3_length (aScatterPos p) \<noteq> 0 \<and> vec3_length (aTreePos p) \<noteq> 0 \<longrightarrow>
     (\<exists>q. foliage_currentPos tm 1 p = Some q
        \<and> q = vec3_add (aTreePos p)
                (vec3_scale (vec3_scale (aTreePos p) (1 / vec3_length (aTreePos p)))
                   (0.3 * sin (tm * 1.5 + aPhase p)))
        \<and> glsl_distance q (aTreePos p) = 0.3 * \<bar>sin (tm * 1.5 + aPhase p)\<bar>
        \<and> glsl_distance q (aTreePos p) \<le> 0.3)"
proof
  assume h: "vec3_length (aScatterPos p) \<noteq> 0 \<and> vec3_length (aTreePos p) \<noteq> 0"
  let ?k = "0.3 * sin (tm * 1.5 + aPhase p)"
  let ?q = "vec3_add (aTreePos p)
              (vec3_scale (vec3_scale (aTreePos p) (1 / vec3_length (aTreePos p))) ?k)"
  from h have pos: "foliage_currentPos tm 1 p = Some ?q"
    by (simp add: foliage_at_full_progress)
  from h have "glsl_distance ?q (aTreePos p) = \<bar>?k\<bar>"
    by (simp add: residual_breathing_distance)
  then have d: "glsl_distance ?q (aTreePos p) = 0.3 * \<bar>sin (tm * 1.5 + aPhase p)\<bar>"
    by (simp add: abs_mult)
  have "\<bar>sin (tm * 1.5 + aPhase p)\<bar> \<le> 1" by (rule abs_sin_le_one)
  with d have "glsl_distance ?q (aTreePos p) \<le> 0.3" by simp
  with pos d show "\<exists>q. foliage_currentPos tm 1 p = Some q
        \<and> q = ?q
        \<and> glsl_distance q (aTreePos p) = 0.3 * \<bar>sin (tm * 1.5 + aPhase p)\<bar>
        \<and> glsl_distance q (aTreePos p) \<le> 0.3"
    by blast
qed

theorem C3_full_progress_position_witness:
  "foliage_currentPos 0 1
     \<lparr>aScatterPos = Vec3 0 1 0, aTreePos = Vec3 1 0 0, aPhase = pi / 2, aSize = 5, aColorIndex = 2\<rparr>
     = Some (Vec3 1.3 0 0)
   \<and> glsl_distance (Vec3 1.3 0 0) (Vec3 1 0 0) = 0.3"
proof -
  let ?p = "\<lparr>aScatterPos = Vec3 0 1 0, aTreePos = Vec3 1 0 0, aPhase = pi / 2, aSize = 5, aColorIndex = 2\<rparr>"
  have nz: "vec3_length (aScatterPos ?p) \<noteq> 0 \<and> vec3_length (aTreePos ?p) \<noteq> 0"
    by (simp add: vec3_length_def)
  from C3_full_progress_position[of ?p 0, rule_format, OF nz]
  obtain q where q: "foliage_currentPos 0 1 ?p = Some q"
    and eq: "q = vec3_add (aTreePos ?p)
                (vec3_scale (vec3_scale (aTreePos ?p) (1 / vec3_length (aTreePos ?p)))
                   (0.3 * sin (0 * 1.5 + aPhase ?p)))"
    and d: "glsl_distance q (aTreePos ?p) = 0.3 * \<bar>sin (0 * 1.5 + aPhase ?p)\<bar>"
    by blast
  from eq have q': "q = Vec3 1.3 0 0"
    by (simp add: vec3_add_def vec3_scale_def vec3_length_def)
  from d have "glsl_distance q (Vec3 1 0 0) = 0.3" by simp
  with q q' show ?thesis by simp
qed

text \<open>
  C3 as stated has the breathing term vanish at progress 1. For the particle with tree
  position (1, 0, 0) and phase \<open>pi / 2\<close> at time 0 the computed position is
  (1.3, 0, 0), not the tree position.
\<close>

theorem C3_residual_breathing_counterexample:
  "foliage_currentPos 0 1
     \<lparr>aScatterPos = Vec3 0 1 0, aTreePos = Vec3 1 0 0, aPhase = pi / 2, aSize = 5, aColorIndex = 2\<rparr>
     = Some (Vec3 1.3 0 0)
   \<and> foliage_currentPos 0 1
     \<lparr>aScatterPos = Vec3 0 1 0, aTreePos = Vec3 1 0 0, aPhase = pi / 2, aSize = 5, aColorIndex = 2\<rparr>
     \<noteq> Some (aTreePos
     \<lparr>aScatterPos = Vec3 0 1 0, aTreePos = Vec3 1 0 0, aPhase = pi / 2, aSize = 5, aColorIndex = 2\<rparr>)"
proof -
  let ?p = "\<lparr>aScatterPos = Vec3 0 1 0, aTreePos = Vec3 1 0 0, aPhase = pi / 2, aSize = 5, aColorIndex = 2\<rparr>"
  have nz: "vec3_length (aScatterPos ?p) \<noteq> 0" "vec3_length (aTreePos ?p) \<noteq> 0"
    by (simp_all add: vec3_length_def)
  have "foliage_currentPos 0 1 ?p = Some (Vec3 1.3 0 0)"
    unfolding foliage_at_full_progress[OF nz]
    by (simp add: vec3_add_def vec3_scale_def vec3_length_def)
  then show ?thesis by simp
qed

section \<open>Photo list updates\<close>

lemma url_newItems: "map url (newItems draws i us) = us"
  by (induction us arbitrary: i) simp_all

lemma setPhotoData_append:
  "setPhotoData draws images prev =
     filter (\<lambda>p. url p \<in> set images) prev
     @ newItems draws 0 (filter (\<lambda>u. u \<notin> set (map url prev)) images)"
  by (simp add: setPhotoData_def Let_def)

lemma url_setPhotoData:
  "map url (setPhotoData draws images prev) =
     filter (\<lambda>u. u \<in> set images) (map url prev)
     @ filter (\<lambda>u. u \<notin> set (map url prev)) images"
  by (simp add: setPhotoData_append url_newItems filter_map comp_def)

lemma set_url_setPhotoData: "set (map url (setPhotoData draws images prev)) = set images"
  unfolding url_setPhotoData by auto

lemma no_new_item_for_existing:
  assumes "u \<in> set (map url prev)"
  shows "filter (\<lambda>p. url p = u) (newItems draws i (filter (\<lambda>u. u \<notin> set (map url prev)) images)) = []"
proof -
  have "u \<notin> set (map url (newItems draws i (filter (\<lambda>u. u \<notin> set (map url prev)) images)))"
    using assms unfolding url_newItems by simp
  then show ?thesis by (auto simp: filter_empty_conv)
qed

lemma setPhotoData_settled:
  assumes "set (map url prev) = set images"
  shows "setPhotoData draws images prev = prev"
proof -
  have "filter (\<lambda>u. u \<notin> set (map url prev)) images = []"
    using assms by (auto simp: filter_empty_conv)
  moreover have "filter (\<lambda>p. url p \<in> set images) prev = prev"
    using assms by (auto simp: filter_id_conv)
  ultimately show ?thesis by (simp add: setPhotoData_append)
qed

text \<open>
  C5, as the code has it. The updated collection is the old entries whose url is still
  listed, unchanged and in their order, followed by one new entry for each listed url
  that had no entry, so its urls are those of the list. For a url that already has an
  entry the update adds none: the entries with that url afterwards are the ones before
  (or none, when the url is no longer listed). When the old urls are distinct and the
  listed urls without an entry are distinct, the urls afterwards are distinct. When the
  collection holds the listed urls, removing from the list a url that has no entry
  leaves the collection as it is. Every old entry whose url is listed is in the result.
\<close>

theorem C5_photo_list_update:
  "setPhotoData draws images prev =
     filter (\<lambda>p. url p \<in> set images) prev
     @ newItems draws 0 (filter (\<lambda>u. u \<notin> set (map url prev)) images)
   \<and> set (map url (setPhotoData draws images prev)) = set images
   \<and> (u \<in> set (map url prev) \<longrightarrow>
         filter (\<lambda>p. url p = u) (setPhotoData draws images prev)
           = (if u \<in> set images then filter (\<lambda>p. url p = u) prev else []))
   \<and> (distinct (map url prev) \<and> distinct (filter (\<lambda>u. u \<notin> set (map url prev)) images) \<longrightarrow>
         distinct (map url (setPhotoData draws images prev)))
   \<and> (set (map url prev) = set images \<and> x \<notin> set (map url prev) \<longrightarrow>
         setPhotoData draws (filter (\<lambda>i. i \<noteq> x) images) prev = prev)
   \<and> (\<forall>p\<in>set prev. url p \<in> set images \<longrightarrow> p \<in> set (setPhotoData draws images prev))"
proof (intro conjI impI ballI)
  show "setPhotoData draws images prev =
     filter (\<lambda>p. url p \<in> set images) prev
     @ newItems draws 0 (filter (\<lambda>u. u \<notin> set (map url prev)) images)"
    by (rule setPhotoData_append)
  show "set (map url (setPhotoData draws images prev)) = set images"
    by (rule set_url_setPhotoData)
next
  assume u: "u \<in> set (map url prev)"
  have "filter (\<lambda>p. url p = u) (filter (\<lambda>p. url p \<in> set images) prev)
          = (if u \<in> set images then filter (\<lambda>p. url p = u) prev else [])"
    by (auto simp: filter_empty_conv intro: filter_cong)
  then show "filter (\<lambda>p. url p = u) (setPhotoData draws images prev)
           = (if u \<in> set images then filter (\<lambda>p. url p = u) prev else [])"
    using no_new_item_for_existing[OF u, of draws 0 images]
    by (simp add: setPhotoData_append)
next
  assume "distinct (map url prev) \<and> distinct (filter (\<lambda>u. u \<notin> set (map url prev)) images)"
  then show "distinct (map url (setPhotoData draws images prev))"
    unfolding url_setPhotoData by auto
next
  assume h: "set (map url prev) = set images \<and> x \<notin> set (map url prev)"
  then have "x \<notin> set images" by blast
  then have "filter (\<lambda>i. i \<noteq> x) images = images" by (auto simp: filter_id_conv)
  with h show "setPhotoData draws (filter (\<lambda>i. i \<noteq> x) images) prev = prev"
    using setPhotoData_settled[of prev images draws] by simp
next
  fix p assume "p \<in> set prev" "url p \<in> set images"
  then show "p \<in> set (setPhotoData draws images prev)"
    by (simp add: setPhotoData_append)
qed


theorem C5_photo_list_update_witness:
  "filter (\<lambda>p. url p = ''a'')
     (setPhotoData (\<lambda>i. \<lparr>treePosRaw = Vec3 1 2 3, scatterPosRaw = Vec3 4 5 6, random = 0\<rparr>)
        [''a'', ''b'', ''a'']
        [\<lparr>url = ''a'', data = \<lparr>tree = Vec3 7 8 9, scatter = Vec3 1 1 1, rotationSpeed = 0,
                                phaseOffset = 1, scale = 110\<rparr>\<rparr>])
     = [\<lparr>url = ''a'', data = \<lparr>tree = Vec3 7 8 9, scatter = Vec3 1 1 1, rotationSpeed = 0,
                                phaseOffset = 1, scale = 110\<rparr>\<rparr>]
   \<and> map url
     (setPhotoData (\<lambda>i. \<lparr>treePosRaw = Vec3 1 2 3, scatterPosRaw = Vec3 4 5 6, random = 0\<rparr>)
        [''a'', ''b'', ''a'']
        [\<lparr>url = ''a'', data = \<lparr>tree = Vec3 7 8 9, scatter = Vec3 1 1 1, rotationSpeed = 0,
                                phaseOffset = 1, scale = 110\<rparr>\<rparr>])
     = [''a'', ''b'']
   \<and> setPhotoData (\<lambda>i. \<lparr>treePosRaw = Vec3 1 2 3, scatterPosRaw = Vec3 4 5 6, random = 0\<rparr>)
        (filter (\<lambda>i. i \<noteq> ''c'') [''a''])
        [\<lparr>url = ''a'', data = \<lparr>tree = Vec3 7 8 9, scatter = Vec3 1 1 1, rotationSpeed = 0,
                                phaseOffset = 1, scale = 110\<rparr>\<rparr>]
     = [\<lparr>url = ''a'', data = \<lparr>tree = Vec3 7 8 9, scatter = Vec3 1 1 1, rotationSpeed = 0,
                                phaseOffset = 1, scale = 110\<rparr>\<rparr>]"
proof -
  let ?draws = "\<lambda>i::nat. \<lparr>treePosRaw = Vec3 1 2 3, scatterPosRaw = Vec3 4 5 6, random = 0\<rparr>"
  let ?e = "\<lparr>url = ''a'', data = \<lparr>tree = Vec3 7 8 9, scatter = Vec3 1 1 1, rotationSpeed = 0,
                                phaseOffset = 1, scale = 110\<rparr>\<rparr>"
  note add = C5_photo_list_update[of ?draws "[''a'', ''b'', ''a'']" "[?e]" "''a''" "''c''"]
  note del = C5_photo_list_update[of ?draws "[''a'']" "[?e]" "''a''" "''c''"]
  have "''a'' \<in> set (map url [?e])" by simp
  with add have "filter (\<lambda>p. url p = ''a'') (setPhotoData ?draws [''a'', ''b'', ''a''] [?e])
           = (if ''a'' \<in> set [''a'', ''b'', ''a''] then filter (\<lambda>p. url p = ''a'') [?e] else [])"
    by blast
  then have one: "filter (\<lambda>p. url p = ''a'') (setPhotoData ?draws [''a'', ''b'', ''a''] [?e]) = [?e]"
    by simp
  from add have "setPhotoData ?draws [''a'', ''b'', ''a''] [?e] =
     filter (\<lambda>p. url p \<in> set [''a'', ''b'', ''a'']) [?e]
     @ newItems ?draws 0 (filter (\<lambda>u. u \<notin> set (map url [?e])) [''a'', ''b'', ''a''])"
    by blast
  then have two: "map url (setPhotoData ?draws [''a'', ''b'', ''a''] [?e]) = [''a'', ''b'']"
    by simp
  have "set (map url [?e]) = set [''a''] \<and> ''c'' \<notin> set (map url [?e])" by simp
  with del have three: "setPhotoData ?draws (filter (\<lambda>i. i \<noteq> ''c'') [''a'']) [?e] = [?e]"
    by blast
  from one two three show ?thesis by blast
qed

text \<open>
  C5 as stated has one ornament per distinct identifier after every update. A list that
  names a new url twice, met by an empty collection, gives two entries with that url:
  new urls are compared with the old collection only, not with each other.
\<close>

theorem C5_same_batch_duplicate_counterexample:
  "map url
     (setPhotoData (\<lambda>i. \<lparr>treePosRaw = Vec3 1 2 3, scatterPosRaw = Vec3 4 5 6, random = 0\<rparr>)
        [''a'', ''a''] [])
     = [''a'', ''a'']
   \<and> \<not> distinct (map url
     (setPhotoData (\<lambda>i. \<lparr>treePosRaw = Vec3 1 2 3, scatterPosRaw = Vec3 4 5 6, random = 0\<rparr>)
        [''a'', ''a''] []))"
  by (simp add: setPhotoData_def)

section \<open>Ornament double click and drag\<close>

lemma clicked_pointer_handlers:
  "clicked (handlePointerDown worldPos hit client s) = clicked s"
  "clicked (handlePointerMove w hit s) = clicked s"
  "clicked (handlePointerUp s) = clicked s"
  "clicked (PhotoItem_useFrame t progress gs s) = clicked s"
  by (simp_all add: handlePointerDown_def handlePointerMove_def handlePointerUp_def
      PhotoItem_useFrame_def Let_def split: option.splits)

text \<open>
  C6, as the code has it. A double click calls \<open>onClick\<close> once, with the url of the
  item, in every state (so also while a drag is active), and leaves the drag state as it
  is. No other handler and no frame calls \<open>onClick\<close>.
\<close>

theorem C6_double_click_calls_back:
  "clicked (handleDoubleClick s) = clicked s @ [url (item s)]
   \<and> isDragging (handleDoubleClick s) = isDragging s
   \<and> clicked (handlePointerDown worldPos hit client s) = clicked s
   \<and> clicked (handlePointerMove w hit s) = clicked s
   \<and> clicked (handlePointerUp s) = clicked s
   \<and> clicked (PhotoItem_useFrame t progress gs s) = clicked s"
  by (simp add: clicked_pointer_handlers) (simp add: handleDoubleClick_def)

text \<open>
  C6 as stated has no callback for a double click during a drag. In a state with
  \<open>isDragging\<close> set the handler calls \<open>onClick\<close> with the item's url.
\<close>

theorem C6_double_click_while_dragging_counterexample:
  "isDragging
     \<lparr>item = \<lparr>url = ''photo'', data = \<lparr>tree = Vec3 7 8 9, scatter = Vec3 1 1 1,
                 rotationSpeed = 0, phaseOffset = 1, scale = 110\<rparr>\<rparr>,
      meshRef = Some \<lparr>position = Vec3 0 0 0, mesh_scale = 1, opacity = 1, has_parent = True\<rparr>,
      hovered = True, isDragging = True, intersection = Vec3 0 0 0, dragOffset = Vec3 0 0 0,
      dragStartPoint = (0, 0), cursor = ''grabbing'', clicked = [], dragStates = [True]\<rparr>
   \<and> clicked (handleDoubleClick
     \<lparr>item = \<lparr>url = ''photo'', data = \<lparr>tree = Vec3 7 8 9, scatter = Vec3 1 1 1,
                 rotationSpeed = 0, phaseOffset = 1, scale = 110\<rparr>\<rparr>,
      meshRef = Some \<lparr>position = Vec3 0 0 0, mesh_scale = 1, opacity = 1, has_parent = True\<rparr>,
      hovered = True, isDragging = True, intersection = Vec3 0 0 0, dragOffset = Vec3 0 0 0,
      dragStartPoint = (0, 0), cursor = ''grabbing'', clicked = [], dragStates = [True]\<rparr>)
     = [''photo'']"
  by (simp add: handleDoubleClick_def)


lemma dragEvents_append: "dragEvents (xs @ ys) s = dragEvents ys (dragEvents xs s)"
  by (induction xs arbitrary: s) simp_all

lemma handlePointerMove_keeps:
  "isDragging (handlePointerMove w hit s) = isDragging s"
  "meshRef (handlePointerMove w hit s) = meshRef s"
  "dragOffset (handlePointerMove w hit s) = dragOffset s"
  "phaseOffset (data (item (handlePointerMove w hit s))) = phaseOffset (data (item s))"
  by (simp_all add: handlePointerMove_def Let_def split: option.splits)

lemma useFrame_keeps:
  "isDragging (PhotoItem_useFrame t progress gs s) = isDragging s"
  "dragOffset (PhotoItem_useFrame t progress gs s) = dragOffset s"
  "item (PhotoItem_useFrame t progress gs s) = item s"
  by (simp_all add: PhotoItem_useFrame_def Let_def split: option.splits)

lemma useFrame_mesh:
  "meshRef s = Some m \<Longrightarrow>
   \<exists>m'. meshRef (PhotoItem_useFrame t progress gs s) = Some m' \<and> has_parent m' = has_parent m"
  by (simp add: PhotoItem_useFrame_def Let_def)

lemma dragEvent_keeps:
  assumes "meshRef s = Some m" "has_parent m"
  shows "isDragging (dragEvent ev s) = isDragging s
   \<and> dragOffset (dragEvent ev s) = dragOffset s
   \<and> phaseOffset (data (item (dragEvent ev s))) = phaseOffset (data (item s))
   \<and> (\<exists>m'. meshRef (dragEvent ev s) = Some m' \<and> has_parent m')"
proof (cases ev)
  case (PointerMove w hit)
  then show ?thesis using assms by (simp add: handlePointerMove_keeps)
next
  case (Frame t progress gs)
  then show ?thesis using assms useFrame_mesh[OF assms(1), of t progress gs]
    by (auto simp: useFrame_keeps)
qed

lemma dragEvents_keeps:
  "meshRef s = Some m \<Longrightarrow> has_parent m \<Longrightarrow>
   isDragging (dragEvents evs s) = isDragging s
   \<and> dragOffset (dragEvents evs s) = dragOffset s
   \<and> phaseOffset (data (item (dragEvents evs s))) = phaseOffset (data (item s))
   \<and> (\<exists>m'. meshRef (dragEvents evs s) = Some m' \<and> has_parent m')"
proof (induction evs arbitrary: s m)
  case Nil
  then show ?case by simp
next
  case (Cons ev evs)
  from dragEvent_keeps[OF Cons.prems, of ev] obtain m' where
    k: "isDragging (dragEvent ev s) = isDragging s" "dragOffset (dragEvent ev s) = dragOffset s"
      "phaseOffset (data (item (dragEvent ev s))) = phaseOffset (data (item s))"
      "meshRef (dragEvent ev s) = Some m'" "has_parent m'"
    by blast
  from Cons.IH[OF k(4,5)] k(1-3) show ?case by simp
qed

lemma dragEvent_no_hit: "\<not> hits ev \<Longrightarrow> item (dragEvent ev s) = item s"
  by (cases ev rule: hits.cases) (simp_all add: handlePointerMove_def useFrame_keeps split: option.splits)

lemma dragEvents_no_hit: "\<forall>ev\<in>set evs. \<not> hits ev \<Longrightarrow> item (dragEvents evs s) = item s"
  by (induction evs arbitrary: s) (simp_all add: dragEvent_no_hit)

lemma handlePointerMove_hit:
  "isDragging s \<Longrightarrow> meshRef s = Some m \<Longrightarrow> has_parent m \<Longrightarrow>
   tree (data (item (handlePointerMove w (Some p) s))) = w (vec3_add p (dragOffset s))"
  by (simp add: handlePointerMove_def Let_def)

lemma handlePointerDown_mounted:
  assumes "meshRef s = Some m"
  shows "isDragging (handlePointerDown worldPos hitDown client s)"
    and "meshRef (handlePointerDown worldPos hitDown client s) = Some m"
    and "dragOffset (handlePointerDown worldPos hitDown client s)
           = (case hitDown of Some i \<Rightarrow> vec3_sub worldPos i | None \<Rightarrow> dragOffset s)"
    and "phaseOffset (data (item (handlePointerDown worldPos hitDown client s)))
           = phaseOffset (data (item s))"
  using assms by (simp_all add: handlePointerDown_def Let_def split: option.splits)

lemma handlePointerUp_keeps:
  "\<not> isDragging (handlePointerUp s)"
  "meshRef (handlePointerUp s) = meshRef s"
  "item (handlePointerUp s) = item s"
  by (simp_all add: handlePointerUp_def)

lemma drag_sequence_tree:
  assumes "meshRef s = Some m" "has_parent m" "\<forall>ev\<in>set post. \<not> hits ev"
  shows "tree (data (item (handlePointerUp
            (dragEvents (pre @ PointerMove w (Some p) # post)
               (handlePointerDown worldPos hitDown client s)))))
         = w (vec3_add p (dragOffset (handlePointerDown worldPos hitDown client s)))"
proof -
  let ?s1 = "handlePointerDown worldPos hitDown client s"
  let ?s2 = "dragEvents pre ?s1"
  note d = handlePointerDown_mounted[OF assms(1), of worldPos hitDown client]
  from dragEvents_keeps[OF d(2) assms(2), of pre] d(1) obtain m2 where
    k: "isDragging ?s2" "dragOffset ?s2 = dragOffset ?s1" "meshRef ?s2 = Some m2" "has_parent m2"
    by auto
  have "item (dragEvents (pre @ PointerMove w (Some p) # post) ?s1)
          = item (dragEvents post (handlePointerMove w (Some p) ?s2))"
    by (simp add: dragEvents_append)
  also have "\<dots> = item (handlePointerMove w (Some p) ?s2)"
    using assms(3) by (rule dragEvents_no_hit)
  finally show ?thesis
    using handlePointerMove_hit[OF k(1,3,4), of w p] k(2)
    by (simp add: handlePointerUp_keeps)
qed

lemma Vector3_lerp_error:
  "vec3_sub (Vector3_lerp a b k) b = vec3_scale (vec3_sub a b) (1 - k)"
  by (simp add: Vector3_lerp_def vec3_sub_def vec3_scale_def algebra_simps)

lemma lerp_fixed_iff:
  fixes x y k :: real
  assumes "k \<noteq> 1"
  shows "x + (y - x) * k = y \<longleftrightarrow> x = y"
proof
  assume "x + (y - x) * k = y"
  then have "(x - y) * (1 - k) = 0" by (simp add: algebra_simps)
  with assms show "x = y" by simp
qed simp

lemma Vector3_lerp_no_snap:
  assumes "a \<noteq> b" "k \<noteq> 1"
  shows "Vector3_lerp a b k \<noteq> b"
proof (cases a)
  case a: (Vec3 ax ay az)
  show ?thesis
  proof (cases b)
    case b: (Vec3 bx by' bz)
    show ?thesis
      using assms(1) unfolding a b Vector3_lerp_def
      by (simp add: lerp_fixed_iff[OF assms(2)])
  qed
qed

lemma useFrame_position:
  assumes "meshRef s = Some m"
  shows "\<exists>m'. meshRef (PhotoItem_useFrame t progress gs s) = Some m'
           \<and> position m' = Vector3_lerp (position m) (PhotoItem_targetPos t progress s)
                               (if isDragging s then 0.3 else 0.08)"
  using assms by (simp add: PhotoItem_useFrame_def Let_def)

lemma targetPos_at_rest:
  assumes "1 \<le> progress" "\<not> isDragging s"
  shows "PhotoItem_targetPos t progress s =
           Vec3 (vx (tree (data (item s))) + cos (t * 0.5 + phaseOffset (data (item s))) * 15.0 * 0.5)
                (vy (tree (data (item s))) + sin (t * 0.8 + phaseOffset (data (item s))) * 15.0)
                (vz (tree (data (item s))))"
  using assms by (simp add: PhotoItem_targetPos_def MathUtils_smoothstep_def MathUtils_lerp_def Let_def)



text \<open>
  C4. A drag on a mounted mesh with a parent: pointer down, then pointer moves and
  frames in any order, of which the last pointer move whose ray hits the drag plane has
  hit point \<open>p\<close> and transform \<open>w\<close>, then pointer up. The grab offset recorded at
  pointer down is the world position minus the hit point of that event (or the offset
  left from before, when that ray misses). After the drag the stored tree position is
  \<open>w (p + offset)\<close> and the item is not dragging. In a frame after the drag the mesh
  position is the one it had eased towards the frame's target by 0.08: its distance
  vector to the target is 0.92 of the old one, so a position off the target does not
  reach it in that frame. At progress 1 or above that target is the new tree position
  plus the floating offset.
\<close>

theorem C4_drag_sets_rest_position:
  fixes s :: photo_item and worldPos :: vec3 and hitDown :: "vec3 option" and client :: "real \<times> real"
    and pre post :: "drag_event list" and w :: "vec3 \<Rightarrow> vec3"
    and p :: vec3 and t progress :: real
  defines "s1 \<equiv> handlePointerDown worldPos hitDown client s"
  defines "s3 \<equiv> handlePointerUp (dragEvents (pre @ PointerMove w (Some p) # post) s1)"
  defines "target \<equiv> PhotoItem_targetPos t progress s3"
  shows "meshRef s = Some m \<and> has_parent m \<and> (\<forall>ev\<in>set post. \<not> hits ev) \<longrightarrow>
     dragOffset s1 = (case hitDown of Some i \<Rightarrow> vec3_sub worldPos i | None \<Rightarrow> dragOffset s)
     \<and> tree (data (item s3)) = w (vec3_add p (dragOffset s1))
     \<and> \<not> isDragging s3
     \<and> (\<exists>m3 m'. meshRef s3 = Some m3
            \<and> meshRef (PhotoItem_useFrame t progress gs s3) = Some m'
            \<and> position m' = Vector3_lerp (position m3) target 0.08
            \<and> vec3_sub (position m') target = vec3_scale (vec3_sub (position m3) target) 0.92
            \<and> (position m3 \<noteq> target \<longrightarrow> position m' \<noteq> target))
     \<and> (1 \<le> progress \<longrightarrow>
           target =
             Vec3 (vx (w (vec3_add p (dragOffset s1)))
                     + cos (t * 0.5 + phaseOffset (data (item s))) * 15.0 * 0.5)
                  (vy (w (vec3_add p (dragOffset s1)))
                     + sin (t * 0.8 + phaseOffset (data (item s))) * 15.0)
                  (vz (w (vec3_add p (dragOffset s1)))))"
proof
  assume h: "meshRef s = Some m \<and> has_parent m \<and> (\<forall>ev\<in>set post. \<not> hits ev)"
  then have m: "meshRef s = Some m" and par: "has_parent m"
    and post: "\<forall>ev\<in>set post. \<not> hits ev" by simp_all
  note d = handlePointerDown_mounted[OF m, of worldPos hitDown client, folded s1_def]
  have off: "dragOffset s1 = (case hitDown of Some i \<Rightarrow> vec3_sub worldPos i | None \<Rightarrow> dragOffset s)"
    by (rule d(3))
  have tr: "tree (data (item s3)) = w (vec3_add p (dragOffset s1))"
    unfolding s3_def s1_def by (rule drag_sequence_tree[OF m par post])
  have nd: "\<not> isDragging s3" unfolding s3_def by (rule handlePointerUp_keeps)
  from dragEvents_keeps[OF d(2) par, of "pre @ PointerMove w (Some p) # post"] d(4)
  obtain m3 where m3: "meshRef s3 = Some m3"
    and ph: "phaseOffset (data (item s3)) = phaseOffset (data (item s))"
    unfolding s3_def by (auto simp: handlePointerUp_keeps)
  from useFrame_position[OF m3, of t progress gs] nd obtain m' where
    m': "meshRef (PhotoItem_useFrame t progress gs s3) = Some m'"
      "position m' = Vector3_lerp (position m3) target 0.08"
    unfolding target_def by auto
  have err: "vec3_sub (position m') target = vec3_scale (vec3_sub (position m3) target) 0.92"
    unfolding m'(2) Vector3_lerp_error by simp
  have snap: "position m3 \<noteq> target \<longrightarrow> position m' \<noteq> target"
    unfolding m'(2) using Vector3_lerp_no_snap[of "position m3" target "0.08"] by simp
  have rest: "1 \<le> progress \<longrightarrow>
           target =
             Vec3 (vx (w (vec3_add p (dragOffset s1)))
                     + cos (t * 0.5 + phaseOffset (data (item s))) * 15.0 * 0.5)
                  (vy (w (vec3_add p (dragOffset s1)))
                     + sin (t * 0.8 + phaseOffset (data (item s))) * 15.0)
                  (vz (w (vec3_add p (dragOffset s1))))"
    unfolding target_def using targetPos_at_rest[OF _ nd, of progress t] tr ph by simp
  from off tr nd m3 m' err snap rest
  show "dragOffset s1 = (case hitDown of Some i \<Rightarrow> vec3_sub worldPos i | None \<Rightarrow> dragOffset s)
     \<and> tree (data (item s3)) = w (vec3_add p (dragOffset s1))
     \<and> \<not> isDragging s3
     \<and> (\<exists>m3 m'. meshRef s3 = Some m3
            \<and> meshRef (PhotoItem_useFrame t progress gs s3) = Some m'
            \<and> position m' = Vector3_lerp (position m3) target 0.08
            \<and> vec3_sub (position m') target = vec3_scale (vec3_sub (position m3) target) 0.92
            \<and> (position m3 \<noteq> target \<longrightarrow> position m' \<noteq> target))
     \<and> (1 \<le> progress \<longrightarrow>
           target =
             Vec3 (vx (w (vec3_add p (dragOffset s1)))
                     + cos (t * 0.5 + phaseOffset (data (item s))) * 15.0 * 0.5)
                  (vy (w (vec3_add p (dragOffset s1)))
                     + sin (t * 0.8 + phaseOffset (data (item s))) * 15.0)
                  (vz (w (vec3_add p (dragOffset s1)))))"
    by blast
qed

theorem C4_drag_sets_rest_position_witness:
  "tree (data (item (handlePointerUp
     (dragEvents [PointerMove (\<lambda>v. v) (Some (Vec3 20 0 0)),
                  Frame 0 1 1.5,
                  PointerMove (\<lambda>v. vec3_sub v (Vec3 0 5 0)) (Some (Vec3 30 5 0)),
                  Frame 0 1 1.5,
                  PointerMove (\<lambda>v. v) None]
        (handlePointerDown (Vec3 10 0 0) (Some (Vec3 9 0 0)) (0, 0)
           \<lparr>item = \<lparr>url = ''photo'', data = \<lparr>tree = Vec3 7 8 9, scatter = Vec3 1 1 1,
                       rotationSpeed = 0, phaseOffset = 0, scale = 110\<rparr>\<rparr>,
            meshRef = Some \<lparr>position = Vec3 0 0 0, mesh_scale = 1, opacity = 1, has_parent = True\<rparr>,
            hovered = True, isDragging = False, intersection = Vec3 0 0 0,
            dragOffset = Vec3 0 0 0, dragStartPoint = (0, 0), cursor = ''zoom-in'',
            clicked = [], dragStates = []\<rparr>))))) = Vec3 31 0 0
   \<and> (\<exists>m'. meshRef (PhotoItem_useFrame 0 1 1.5 (handlePointerUp
     (dragEvents [PointerMove (\<lambda>v. v) (Some (Vec3 20 0 0)),
                  Frame 0 1 1.5,
                  PointerMove (\<lambda>v. vec3_sub v (Vec3 0 5 0)) (Some (Vec3 30 5 0)),
                  Frame 0 1 1.5,
                  PointerMove (\<lambda>v. v) None]
        (handlePointerDown (Vec3 10 0 0) (Some (Vec3 9 0 0)) (0, 0)
           \<lparr>item = \<lparr>url = ''photo'', data = \<lparr>tree = Vec3 7 8 9, scatter = Vec3 1 1 1,
                       rotationSpeed = 0, phaseOffset = 0, scale = 110\<rparr>\<rparr>,
            meshRef = Some \<lparr>position = Vec3 0 0 0, mesh_scale = 1, opacity = 1, has_parent = True\<rparr>,
            hovered = True, isDragging = False, intersection = Vec3 0 0 0,
            dragOffset = Vec3 0 0 0, dragStartPoint = (0, 0), cursor = ''zoom-in'',
            clicked = [], dragStates = []\<rparr>)))) = Some m'
         \<and> position m' = Vec3 15.6932 0 0)"
proof -
  let ?m = "\<lparr>position = Vec3 0 0 0, mesh_scale = 1, opacity = 1, has_parent = True\<rparr>"
  let ?s = "\<lparr>item = \<lparr>url = ''photo'', data = \<lparr>tree = Vec3 7 8 9, scatter = Vec3 1 1 1,
                       rotationSpeed = 0, phaseOffset = 0, scale = 110\<rparr>\<rparr>,
            meshRef = Some ?m,
            hovered = True, isDragging = False, intersection = Vec3 0 0 0,
            dragOffset = Vec3 0 0 0, dragStartPoint = (0, 0), cursor = ''zoom-in'',
            clicked = [], dragStates = []\<rparr>"
  let ?w = "\<lambda>v. vec3_sub v (Vec3 0 5 0)"
  let ?pre = "[PointerMove (\<lambda>v. v) (Some (Vec3 20 0 0)), Frame 0 1 1.5]"
  let ?post = "[Frame 0 1 1.5, PointerMove (\<lambda>v. v) None]"
  let ?s1 = "handlePointerDown (Vec3 10 0 0) (Some (Vec3 9 0 0)) (0, 0) ?s"
  let ?s3 = "handlePointerUp (dragEvents (?pre @ PointerMove ?w (Some (Vec3 30 5 0)) # ?post) ?s1)"
  have h: "meshRef ?s = Some ?m \<and> has_parent ?m \<and> (\<forall>ev\<in>set ?post. \<not> hits ev)"
    by simp
  note inst = C4_drag_sets_rest_position[where s = ?s and m = ?m and post = ?post and pre = ?pre
      and w = ?w and p = "Vec3 30 5 0" and worldPos = "Vec3 10 0 0" and hitDown = "Some (Vec3 9 0 0)"
      and client = "(0, 0)" and t = 0 and progress = 1 and gs = "1.5", rule_format, OF h]
  from inst have off: "dragOffset ?s1 = vec3_sub (Vec3 10 0 0) (Vec3 9 0 0)" by simp
  from inst have "tree (data (item ?s3)) = ?w (vec3_add (Vec3 30 5 0) (dragOffset ?s1))"
    by blast
  then have one: "tree (data (item ?s3)) = Vec3 31 0 0"
    unfolding off by (simp add: vec3_add_def vec3_sub_def)
  have "(1::real) \<le> 1" by simp
  with inst have "PhotoItem_targetPos 0 1 ?s3 =
             Vec3 (vx (?w (vec3_add (Vec3 30 5 0) (dragOffset ?s1)))
                     + cos (0 * 0.5 + phaseOffset (data (item ?s))) * 15.0 * 0.5)
                  (vy (?w (vec3_add (Vec3 30 5 0) (dragOffset ?s1)))
                     + sin (0 * 0.8 + phaseOffset (data (item ?s))) * 15.0)
                  (vz (?w (vec3_add (Vec3 30 5 0) (dragOffset ?s1))))"
    by blast
  then have tg: "PhotoItem_targetPos 0 1 ?s3 = Vec3 38.5 0 0"
    unfolding off by (simp add: vec3_add_def vec3_sub_def)
  have pos3: "map_option position (meshRef ?s3) = Some (Vec3 13.71 0 0)"
    by (simp add: handlePointerUp_def handlePointerDown_def handlePointerMove_def
        PhotoItem_useFrame_def PhotoItem_targetPos_def MathUtils_smoothstep_def MathUtils_lerp_def
        Vector3_lerp_def vec3_add_def vec3_sub_def Let_def)
  from inst obtain m3 m' where "meshRef ?s3 = Some m3"
    and "meshRef (PhotoItem_useFrame 0 1 1.5 ?s3) = Some m'"
    and "position m' = Vector3_lerp (position m3) (PhotoItem_targetPos 0 1 ?s3) 0.08"
    by blast
  with pos3 have "meshRef (PhotoItem_useFrame 0 1 1.5 ?s3) = Some m' \<and> position m' = Vec3 15.6932 0 0"
    unfolding tg by (simp add: Vector3_lerp_def)
  then have two: "\<exists>m'. meshRef (PhotoItem_useFrame 0 1 1.5 ?s3) = Some m' \<and> position m' = Vec3 15.6932 0 0"
    by blast
  from one two show ?thesis by simp
qed

section \<open>Dust field: the attraction stays on\<close>

lemma GoldDust_useFrame_mounted:
  assumes "dust_mounted s"
  shows "uHover (GoldDust_useFrame e hit s) = 1"
    and "mousePos3D (GoldDust_useFrame e hit s)
           = Vector3_lerp (mousePos3D s) (case hit of Some p \<Rightarrow> p | None \<Rightarrow> Vec3 0 0 0) 0.1"
    and "uMouse (GoldDust_useFrame e hit s) = mousePos3D (GoldDust_useFrame e hit s)"
    and "dust_mounted (GoldDust_useFrame e hit s)"
  using assms by (simp_all add: GoldDust_useFrame_def truthy_def Let_def)

lemma GoldDust_useFrame_unmounted: "\<not> dust_mounted s \<Longrightarrow> GoldDust_useFrame e hit s = s"
  by (simp add: GoldDust_useFrame_def)

lemma uHover_kept: "uHover s = 1 \<Longrightarrow> uHover (GoldDust_useFrame e hit s) = 1"
  by (cases "dust_mounted s") (simp_all add: GoldDust_useFrame_mounted GoldDust_useFrame_unmounted)

lemma uHover_frames_kept: "uHover s = 1 \<Longrightarrow> uHover (GoldDust_frames frames s) = 1"
  by (induction frames arbitrary: s) (simp_all add: uHover_kept)

lemma uHover_frames_mounted:
  "dust_mounted s \<Longrightarrow> frames \<noteq> [] \<Longrightarrow> uHover (GoldDust_frames frames s) = 1"
  by (cases frames) (simp_all add: uHover_frames_kept GoldDust_useFrame_mounted)

lemma vec3_length_sub_sym: "vec3_length (vec3_sub a b) = vec3_length (vec3_sub b a)"
proof -
  have "(x - y) * (x - y) = (y - x) * (y - x)" for x y :: real by (simp add: algebra_simps)
  then show ?thesis by (simp add: vec3_length_def vec3_sub_def)
qed

lemma vec3_scale_scale: "vec3_scale (vec3_scale v a) b = vec3_scale v (a * b)"
  by (simp add: vec3_scale_def mult.assoc)

lemma dust_attracted:
  assumes "0 < glsl_distance (dust_oscillated tm pos0 ph) uM"
    and "glsl_distance (dust_oscillated tm pos0 ph) uM < 1200"
  shows "dust_pos tm uM 1 pos0 ph =
           Some (vec3_add (dust_oscillated tm pos0 ph)
                  (vec3_scale (vec3_sub uM (dust_oscillated tm pos0 ph))
                     ((1 - glsl_distance (dust_oscillated tm pos0 ph) uM / 1200)\<^sup>2 * 300
                        / glsl_distance (dust_oscillated tm pos0 ph) uM)))"
proof -
  let ?pos = "dust_oscillated tm pos0 ph"
  let ?d = "glsl_distance ?pos uM"
  have len: "vec3_length (vec3_sub uM ?pos) = ?d"
    by (simp add: glsl_distance_def vec3_length_sub_sym)
  have "glsl_normalize (vec3_sub uM ?pos) = Some (vec3_scale (vec3_sub uM ?pos) (1 / ?d))"
    using assms(1) by (simp add: glsl_normalize_def len)
  then show ?thesis
    using assms by (simp add: dust_pos_def Let_def vec3_scale_scale)
qed

text \<open>
  C10. A frame with the mesh mounted sets \<open>uHover\<close> to 1 whether the pointer ray hits
  the plane or not, eases the smoothed pointer position a tenth of the way to the hit
  point (to the origin when there is none) and copies it to \<open>uMouse\<close>. No frame takes
  \<open>uHover\<close> away from 1, so after the first frame of a mounted mesh it is 1 for good.
  With \<open>uHover\<close> at 1, a particle whose oscillated position is within the attraction
  radius of \<open>uMouse\<close> (and not on it) is moved from that position along the direction to
  \<open>uMouse\<close>, by a positive multiple of the vector to it.
\<close>

theorem C10_dust_attraction_always_on:
  "(dust_mounted s \<longrightarrow>
      uHover (GoldDust_useFrame e hit s) = 1
      \<and> mousePos3D (GoldDust_useFrame e hit s)
          = Vector3_lerp (mousePos3D s) (case hit of Some p \<Rightarrow> p | None \<Rightarrow> Vec3 0 0 0) 0.1
      \<and> uMouse (GoldDust_useFrame e hit s) = mousePos3D (GoldDust_useFrame e hit s)
      \<and> dust_mounted (GoldDust_useFrame e hit s))
   \<and> (uHover s = 1 \<longrightarrow>
        uHover (GoldDust_useFrame e hit s) = 1 \<and> uHover (GoldDust_frames frames s) = 1)
   \<and> (dust_mounted s \<and> frames \<noteq> [] \<longrightarrow> uHover (GoldDust_frames frames s) = 1)
   \<and> (0 < glsl_distance (dust_oscillated tm pos0 ph) uM
        \<and> glsl_distance (dust_oscillated tm pos0 ph) uM < 1200 \<longrightarrow>
        dust_pos tm uM 1 pos0 ph =
           Some (vec3_add (dust_oscillated tm pos0 ph)
                  (vec3_scale (vec3_sub uM (dust_oscillated tm pos0 ph))
                     ((1 - glsl_distance (dust_oscillated tm pos0 ph) uM / 1200)\<^sup>2 * 300
                        / glsl_distance (dust_oscillated tm pos0 ph) uM)))
        \<and> 0 < (1 - glsl_distance (dust_oscillated tm pos0 ph) uM / 1200)\<^sup>2 * 300
                 / glsl_distance (dust_oscillated tm pos0 ph) uM)"
proof (intro conjI impI)
  assume m: "dust_mounted s"
  show "uHover (GoldDust_useFrame e hit s) = 1"
    and "mousePos3D (GoldDust_useFrame e hit s)
          = Vector3_lerp (mousePos3D s) (case hit of Some p \<Rightarrow> p | None \<Rightarrow> Vec3 0 0 0) 0.1"
    and "uMouse (GoldDust_useFrame e hit s) = mousePos3D (GoldDust_useFrame e hit s)"
    and "dust_mounted (GoldDust_useFrame e hit s)"
    by (rule GoldDust_useFrame_mounted[OF m])+
next
  assume h: "uHover s = 1"
  show "uHover (GoldDust_useFrame e hit s) = 1" by (rule uHover_kept[OF h])
  show "uHover (GoldDust_frames frames s) = 1" by (rule uHover_frames_kept[OF h])
next
  assume "dust_mounted s \<and> frames \<noteq> []"
  then show "uHover (GoldDust_frames frames s) = 1" by (simp add: uHover_frames_mounted)
next
  let ?d = "glsl_distance (dust_oscillated tm pos0 ph) uM"
  assume h: "0 < ?d \<and> ?d < 1200"
  then show "dust_pos tm uM 1 pos0 ph =
           Some (vec3_add (dust_oscillated tm pos0 ph)
                  (vec3_scale (vec3_sub uM (dust_oscillated tm pos0 ph))
                     ((1 - ?d / 1200)\<^sup>2 * 300 / ?d)))"
    using dust_attracted[of tm pos0 ph uM] by blast
  from h have "0 < 1 - ?d / 1200" by simp
  then have "0 < (1 - ?d / 1200)\<^sup>2" by simp
  then show "0 < (1 - ?d / 1200)\<^sup>2 * 300 / ?d" using h by simp
qed

theorem C10_dust_attraction_always_on_witness:
  "uHover (GoldDust_useFrame 1 None (dust_init\<lparr>dust_mounted := True\<rparr>)) = 1
   \<and> uHover (GoldDust_frames [(1, None), (2, Some (Vec3 600 0 0)), (3, None)]
        (dust_init\<lparr>dust_mounted := True\<rparr>)) = 1
   \<and> dust_pos 0 (Vec3 600 0 0) 1 (Vec3 (- 20) 0 0) 0 = Some (Vec3 75 0 0)"
proof -
  let ?s = "dust_init\<lparr>dust_mounted := True\<rparr>"
  let ?fs = "[(1, None), (2, Some (Vec3 600 0 0)), (3, None)] :: (real \<times> vec3 option) list"
  note inst = C10_dust_attraction_always_on[of ?s 1 None ?fs 0 "Vec3 (- 20) 0 0" 0 "Vec3 600 0 0"]
  have m: "dust_mounted ?s" by simp
  with inst have one: "uHover (GoldDust_useFrame 1 None ?s) = 1" by blast
  have "dust_mounted ?s \<and> ?fs \<noteq> []" by simp
  with inst have two: "uHover (GoldDust_frames ?fs ?s) = 1" by blast
  have pos: "dust_oscillated 0 (Vec3 (- 20) 0 0) 0 = Vec3 0 0 0"
    by (simp add: dust_oscillated_def)
  have d: "glsl_distance (Vec3 0 0 0) (Vec3 600 0 0) = 600"
    by (simp add: glsl_distance_def vec3_length_def vec3_sub_def)
  have "0 < glsl_distance (dust_oscillated 0 (Vec3 (- 20) 0 0) 0) (Vec3 600 0 0)
        \<and> glsl_distance (dust_oscillated 0 (Vec3 (- 20) 0 0) 0) (Vec3 600 0 0) < 1200"
    unfolding pos d by simp
  with inst have "dust_pos 0 (Vec3 600 0 0) 1 (Vec3 (- 20) 0 0) 0 =
           Some (vec3_add (dust_oscillated 0 (Vec3 (- 20) 0 0) 0)
                  (vec3_scale (vec3_sub (Vec3 600 0 0) (dust_oscillated 0 (Vec3 (- 20) 0 0) 0))
                     ((1 - glsl_distance (dust_oscillated 0 (Vec3 (- 20) 0 0) 0) (Vec3 600 0 0) / 1200)\<^sup>2
                        * 300
                        / glsl_distance (dust_oscillated 0 (Vec3 (- 20) 0 0) 0) (Vec3 600 0 0))))"
    by blast
  then have three: "dust_pos 0 (Vec3 600 0 0) 1 (Vec3 (- 20) 0 0) 0 = Some (Vec3 75 0 0)"
    unfolding pos d by (simp add: vec3_add_def vec3_sub_def vec3_scale_def power2_eq_square)
  from one two three show ?thesis by blast
qed

end
